theory Spec2Isabelle
  imports Complex_Main
begin

section \<open>Python values\<close>

text \<open>
  The service works on JSON-like data (\<^verbatim>\<open>dict[str, Any]\<close>): every value the code
  touches is one of the constructors below. A dictionary is kept as an association list
  with string keys (the first binding of a key is the one \<^verbatim>\<open>get\<close> sees).
  Python floats are idealised as reals: rounding error, infinities and NaN are outside
  the model. Dates are proleptic Gregorian ordinals (\<^verbatim>\<open>date.toordinal()\<close>), so
  that \<^verbatim>\<open>date(1, 1, 1)\<close> is 1 and \<^verbatim>\<open>date(9999, 12, 31)\<close> is 3652059.
\<close>

datatype pyval =
    PNone
  | PBool bool
  | PInt int
  | PFloat real
  | PStr string
  | PList "pyval list"
  | PDict "(string \<times> pyval) list"

datatype py_error =
    AttributeError
  | TypeError
  | ValueError
  | KeyError
  | OverflowError
  | UnboundLocalError

type_synonym date = int

text \<open>
  The standard-library functions the code calls on strings, and the clock, are parameters
  of the model: \<open>str_float\<close> is \<^verbatim>\<open>float(s)\<close>, \<open>str_int\<close> is \<^verbatim>\<open>int(s)\<close>,
  \<open>fromisoformat\<close> is \<^verbatim>\<open>datetime.fromisoformat(s).date()\<close>, \<open>strptime_ymd\<close> is
  \<^verbatim>\<open>datetime.strptime(s, "%Y-%m-%d").date()\<close> (each \<open>None\<close> where Python raises
  ValueError), and \<open>date_today\<close> is \<^verbatim>\<open>date.today()\<close>.
\<close>

record builtins =
  str_float :: "string \<Rightarrow> real option"
  str_int :: "string \<Rightarrow> int option"
  fromisoformat :: "string \<Rightarrow> date option"
  strptime_ymd :: "string \<Rightarrow> date option"
  date_today :: date

subsection \<open>Truthiness, attribute access, iteration\<close>

fun truthy :: "pyval \<Rightarrow> bool" where
  "truthy PNone = False"
| "truthy (PBool b) = b"
| "truthy (PInt i) = (i \<noteq> 0)"
| "truthy (PFloat r) = (r \<noteq> 0)"
| "truthy (PStr s) = (s \<noteq> [])"
| "truthy (PList xs) = (xs \<noteq> [])"
| "truthy (PDict kvs) = (kvs \<noteq> [])"

text \<open>
  \<^verbatim>\<open>d.get(key, default)\<close> on a dict, and on any value: only a dict has the attribute.
\<close>

definition dict_get :: "(string \<times> pyval) list \<Rightarrow> string \<Rightarrow> pyval \<Rightarrow> pyval" where
  "dict_get kvs k dflt = (case map_of kvs k of Some v \<Rightarrow> v | None \<Rightarrow> dflt)"

fun py_get :: "pyval \<Rightarrow> string \<Rightarrow> pyval \<Rightarrow> py_error + pyval" where
  "py_get (PDict kvs) k dflt = Inr (dict_get kvs k dflt)"
| "py_get _ k dflt = Inl AttributeError"

text \<open>\<^verbatim>\<open>for x in obj\<close>: a list yields its items, a dict its keys, a string its characters.\<close>

fun py_iter :: "pyval \<Rightarrow> py_error + pyval list" where
  "py_iter (PList xs) = Inr xs"
| "py_iter (PDict kvs) = Inr (map (\<lambda>kv. PStr (fst kv)) kvs)"
| "py_iter (PStr s) = Inr (map (\<lambda>c. PStr [c]) s)"
| "py_iter _ = Inl TypeError"

text \<open>A \<^verbatim>\<open>for\<close> loop over a list whose body may raise: the first exception ends it.\<close>

fun for_each :: "('a \<Rightarrow> 's \<Rightarrow> py_error + 's) \<Rightarrow> 'a list \<Rightarrow> 's \<Rightarrow> py_error + 's" where
  "for_each body [] s = Inr s"
| "for_each body (x # xs) s =
     (case body x s of Inl e \<Rightarrow> Inl e | Inr s' \<Rightarrow> for_each body xs s')"

subsection \<open>Numeric coercion\<close>

text \<open>
  \<^verbatim>\<open>float(value)\<close> and \<^verbatim>\<open>int(value)\<close> for a value that is not None. An int is
  rounded to the nearest double, and \<^verbatim>\<open>float\<close> raises OverflowError where that lies
  beyond the largest double \<open>2 ^ 1024 - 2 ^ 971\<close>: from \<open>2 ^ 1024 - 2 ^ 970\<close> on, in
  absolute value. Below that bound the model keeps the int's exact value.
\<close>

definition int_fits_float :: "int \<Rightarrow> bool" where
  "int_fits_float i = (\<bar>i\<bar> < 2 ^ 1024 - 2 ^ 970)"

fun py_float :: "builtins \<Rightarrow> pyval \<Rightarrow> py_error + real" where
  "py_float B (PBool b) = Inr (if b then 1 else 0)"
| "py_float B (PInt i) = (if int_fits_float i then Inr (real_of_int i) else Inl OverflowError)"
| "py_float B (PFloat r) = Inr r"
| "py_float B (PStr s) = (case str_float B s of Some r \<Rightarrow> Inr r | None \<Rightarrow> Inl ValueError)"
| "py_float B _ = Inl TypeError"

definition py_trunc :: "real \<Rightarrow> int" where
  "py_trunc r = (if 0 \<le> r then \<lfloor>r\<rfloor> else \<lceil>r\<rceil>)"

fun py_int :: "builtins \<Rightarrow> pyval \<Rightarrow> py_error + int" where
  "py_int B (PBool b) = Inr (if b then 1 else 0)"
| "py_int B (PInt i) = Inr i"
| "py_int B (PFloat r) = Inr (py_trunc r)"
| "py_int B (PStr s) = (case str_int B s of Some i \<Rightarrow> Inr i | None \<Rightarrow> Inl ValueError)"
| "py_int B _ = Inl TypeError"

text \<open>
  \<^verbatim>\<open>_safe_float(value, default)\<close> and \<^verbatim>\<open>_safe_int(value, default)\<close>: the handler
  is \<^verbatim>\<open>except (ValueError, TypeError)\<close>, so the OverflowError of a huge int leaves
  \<^verbatim>\<open>_safe_float\<close>.
\<close>

fun safe_catches :: "py_error \<Rightarrow> bool" where
  "safe_catches ValueError = True"
| "safe_catches TypeError = True"
| "safe_catches _ = False"

definition safe_float :: "builtins \<Rightarrow> pyval \<Rightarrow> real \<Rightarrow> py_error + real" where
  "safe_float B v dflt =
     (if v = PNone then Inr dflt
      else (case py_float B v of
              Inr r \<Rightarrow> Inr r
            | Inl e \<Rightarrow> if safe_catches e then Inr dflt else Inl e))"

definition safe_int :: "builtins \<Rightarrow> pyval \<Rightarrow> int \<Rightarrow> py_error + int" where
  "safe_int B v dflt =
     (if v = PNone then Inr dflt
      else (case py_int B v of
              Inr i \<Rightarrow> Inr i
            | Inl e \<Rightarrow> if safe_catches e then Inr dflt else Inl e))"

subsection \<open>Dates\<close>

definition MINORD :: int where "MINORD = 1"
definition MAXORD :: int where "MAXORD = 3652059"

definition valid_date :: "date \<Rightarrow> bool" where
  "valid_date d = (MINORD \<le> d \<and> d \<le> MAXORD)"

text \<open>\<^verbatim>\<open>timedelta(days=n)\<close> and \<^verbatim>\<open>d + timedelta\<close>: both raise OverflowError out of range.\<close>

definition timedelta :: "int \<Rightarrow> py_error + int" where
  "timedelta days = (if \<bar>days\<bar> \<le> 999999999 then Inr days else Inl OverflowError)"

definition date_add :: "date \<Rightarrow> int \<Rightarrow> py_error + date" where
  "date_add d delta = (if valid_date (d + delta) then Inr (d + delta) else Inl OverflowError)"

definition date_plus_days :: "date \<Rightarrow> int \<Rightarrow> py_error + date" where
  "date_plus_days d n = (case timedelta n of Inl e \<Rightarrow> Inl e | Inr td \<Rightarrow> date_add d td)"

definition date_minus_days :: "date \<Rightarrow> int \<Rightarrow> py_error + date" where
  "date_minus_days d n = (case timedelta n of Inl e \<Rightarrow> Inl e | Inr td \<Rightarrow> date_add d (- td))"

text \<open>\<^verbatim>\<open>date.weekday()\<close>: Monday is 0; ordinal 1 is a Monday.\<close>

definition weekday :: "date \<Rightarrow> int" where
  "weekday d = (d + 6) mod 7"

text \<open>\<^verbatim>\<open>_get_week_start\<close>: the Monday of the week of a date.\<close>

definition get_week_start :: "date \<Rightarrow> py_error + date" where
  "get_week_start activity_date = date_minus_days activity_date (weekday activity_date)"

section \<open>Date extraction\<close>

definition replace_Z :: "string \<Rightarrow> string" where
  "replace_Z s = concat (map (\<lambda>c. if c = CHR ''Z'' then ''+00:00'' else [c]) s)"

definition split_T_first :: "string \<Rightarrow> string" where
  "split_T_first s = takeWhile (\<lambda>c. c \<noteq> CHR ''T'') s"

text \<open>
  \<^verbatim>\<open>_parse_activity_date\<close>. The handler catches ValueError and AttributeError only:
  \<^item> an activity that is no dict raises AttributeError at \<^verbatim>\<open>activity.get\<close>; the
    handler then formats \<^verbatim>\<open>start_time\<close>, which was never bound, and that
    UnboundLocalError leaves the function;
  \<^item> a truthy number as start time raises TypeError at \<^verbatim>\<open>"T" in start_time\<close>, uncaught;
  \<^item> a non-empty list or dict as start time reaches \<^verbatim>\<open>replace\<close> or \<^verbatim>\<open>split\<close>, which it
    lacks: AttributeError, caught, the result is None.
\<close>

definition parse_activity_date :: "builtins \<Rightarrow> pyval \<Rightarrow> py_error + date option" where
  "parse_activity_date B activity =
     (case py_get activity ''start_time'' (PStr '''') of
        Inl e \<Rightarrow> Inl UnboundLocalError
      | Inr start_time \<Rightarrow>
          if \<not> truthy start_time then Inr None
          else (case start_time of
              PStr s \<Rightarrow>
                if CHR ''T'' \<in> set s then Inr (fromisoformat B (replace_Z s))
                else Inr (strptime_ymd B (split_T_first s))
            | PList xs \<Rightarrow> Inr None
            | PDict kvs \<Rightarrow> Inr None
            | _ \<Rightarrow> Inl TypeError))"

section \<open>Window partitioner\<close>

text \<open>
  The body of the loop of \<^verbatim>\<open>prepare_agent_context\<close> that splits the activities, on the
  pair (recent_activities, historical_activities).
\<close>

definition split_step ::
  "builtins \<Rightarrow> date \<Rightarrow> date \<Rightarrow> pyval \<Rightarrow> pyval list \<times> pyval list
     \<Rightarrow> py_error + (pyval list \<times> pyval list)" where
  "split_step B recent_cutoff trends_cutoff activity acc =
     (case parse_activity_date B activity of
        Inl e \<Rightarrow> Inl e
      | Inr None \<Rightarrow> Inr acc
      | Inr (Some activity_date) \<Rightarrow>
          if activity_date > recent_cutoff then Inr (fst acc @ [activity], snd acc)
          else if activity_date > trends_cutoff then Inr (fst acc, snd acc @ [activity])
          else Inr acc)"

definition split_activities ::
  "builtins \<Rightarrow> date \<Rightarrow> date \<Rightarrow> pyval list \<Rightarrow> py_error + (pyval list \<times> pyval list)" where
  "split_activities B recent_cutoff trends_cutoff activities =
     for_each (split_step B recent_cutoff trends_cutoff) activities ([], [])"

section \<open>Weekly aggregator\<close>

text \<open>
  The dataclass \<^verbatim>\<open>WeeklyAggregate\<close>. The code stores \<^verbatim>\<open>week_start.isoformat()\<close> and
  \<^verbatim>\<open>week_end.isoformat()\<close>; the model keeps the dates themselves (on dates of the years
  1 to 9999 the ISO string is ordered as the date is, so sorting by one is sorting by the
  other). \<open>highest_intensity_activity\<close> holds whatever value the activity-type tag
  is, \<open>PNone\<close> for Python's None.
\<close>

record weekly_aggregate =
  week_start :: date
  week_end :: date
  week_number :: int
  total_activities :: nat
  total_distance_km :: real
  total_duration_hours :: real
  total_elevation_gain_m :: real
  activities_by_type :: "(pyval \<times> int) list"
  distance_by_type :: "(pyval \<times> real) list"
  duration_by_type :: "(pyval \<times> real) list"
  avg_heart_rate :: "real option"
  max_heart_rate :: "int option"
  total_training_load :: "real option"
  longest_activity_distance_km :: "real option"
  longest_activity_duration_hours :: "real option"
  highest_intensity_activity :: pyval
  avg_resting_hr :: "real option"
  avg_sleep_hours :: "real option"

subsection \<open>Dictionaries keyed by the activity type\<close>

text \<open>
  The by-type breakdowns are \<^verbatim>\<open>defaultdict\<close>s keyed by the activity-type tag, which can
  be any value: a list or a dict is unhashable (TypeError), and numbers that compare
  equal are one key.
\<close>

fun hashable :: "pyval \<Rightarrow> bool" where
  "hashable (PList xs) = False"
| "hashable (PDict kvs) = False"
| "hashable _ = True"

fun num_val :: "pyval \<Rightarrow> real option" where
  "num_val (PBool b) = Some (if b then 1 else 0)"
| "num_val (PInt i) = Some (real_of_int i)"
| "num_val (PFloat r) = Some r"
| "num_val _ = None"

definition key_eq :: "pyval \<Rightarrow> pyval \<Rightarrow> bool" where
  "key_eq a b =
     (case num_val a of
        Some x \<Rightarrow> (case num_val b of Some y \<Rightarrow> x = y | None \<Rightarrow> False)
      | None \<Rightarrow> (case num_val b of Some y \<Rightarrow> False | None \<Rightarrow> a = b))"

text \<open>\<^verbatim>\<open>d[k] += v\<close> on a defaultdict whose factory gives \<open>zero\<close>.\<close>

fun dd_add :: "(pyval \<times> 'v) list \<Rightarrow> pyval \<Rightarrow> 'v \<Rightarrow> ('v \<Rightarrow> 'v) \<Rightarrow> (pyval \<times> 'v) list" where
  "dd_add [] k zero f = [(k, f zero)]"
| "dd_add (kv # kvs) k zero f =
     (if key_eq (fst kv) k then (fst kv, f (snd kv)) # kvs else kv # dd_add kvs k zero f)"

subsection \<open>Recovery join\<close>

text \<open>The handler of the loop body: \<^verbatim>\<open>except (ValueError, TypeError, KeyError): continue\<close>.\<close>

fun recovery_catches :: "py_error \<Rightarrow> bool" where
  "recovery_catches ValueError = True"
| "recovery_catches TypeError = True"
| "recovery_catches KeyError = True"
| "recovery_catches _ = False"

text \<open>
  The body of the loop of \<^verbatim>\<open>_extract_weekly_recovery_metrics\<close>, on the pair
  (resting_hrs, sleep_hours). An exception the handler catches leaves the lists as they
  are at that moment; \<^verbatim>\<open>get\<close> on a value that is no dict raises AttributeError, and
  \<^verbatim>\<open>float\<close> on a huge int OverflowError, neither of which the handler catches.
\<close>

definition recovery_step ::
  "builtins \<Rightarrow> date \<Rightarrow> date \<Rightarrow> pyval \<Rightarrow> real list \<times> real list
     \<Rightarrow> py_error + (real list \<times> real list)" where
  "recovery_step B wk_start wk_end entry acc =
     (case entry of
        PDict ekvs \<Rightarrow>
          (case dict_get ekvs ''date'' (PStr '''') of
             PStr s \<Rightarrow>
               (case fromisoformat B s of
                  None \<Rightarrow> if recovery_catches ValueError then Inr acc else Inl ValueError
                | Some entry_date \<Rightarrow>
                    if wk_start \<le> entry_date \<and> entry_date \<le> wk_end then
                      (case dict_get ekvs ''sleep'' (PDict []) of
                         PDict sleep_info \<Rightarrow>
                           (let rhr = dict_get sleep_info ''resting_heart_rate'' PNone in
                            case (if truthy rhr
                                  then (case py_float B rhr of
                                          Inl e \<Rightarrow> Inl e
                                        | Inr r \<Rightarrow> Inr (fst acc @ [r]))
                                  else Inr (fst acc)) of
                              Inl e \<Rightarrow> if recovery_catches e then Inr acc else Inl e
                            | Inr resting_hrs \<Rightarrow>
                                (case dict_get sleep_info ''duration'' (PDict []) of
                                   PDict duration_info \<Rightarrow>
                                     (let total_sleep = dict_get duration_info ''total'' PNone in
                                      if truthy total_sleep
                                      then (case py_float B total_sleep of
                                              Inl e \<Rightarrow>
                                                if recovery_catches e
                                                then Inr (resting_hrs, snd acc) else Inl e
                                            | Inr r \<Rightarrow> Inr (resting_hrs, snd acc @ [r]))
                                      else Inr (resting_hrs, snd acc))
                                 | _ \<Rightarrow> Inl AttributeError))
                       | _ \<Rightarrow> Inl AttributeError)
                    else Inr acc)
           | _ \<Rightarrow> if recovery_catches TypeError then Inr acc else Inl TypeError)
      | _ \<Rightarrow> Inl AttributeError)"

definition mean :: "real list \<Rightarrow> real option" where
  "mean xs = (if xs \<noteq> [] then Some (sum_list xs / real (length xs)) else None)"

definition extract_weekly_recovery_metrics ::
  "builtins \<Rightarrow> pyval \<Rightarrow> date \<Rightarrow> date \<Rightarrow> py_error + (real option \<times> real option)" where
  "extract_weekly_recovery_metrics B garmin_data wk_start wk_end =
     (case py_get garmin_data ''recovery_indicators'' (PList []) of
        Inl e \<Rightarrow> Inl e
      | Inr recovery_data \<Rightarrow>
          (case py_iter recovery_data of
             Inl e \<Rightarrow> Inl e
           | Inr entries \<Rightarrow>
               (case for_each (recovery_step B wk_start wk_end) entries ([], []) of
                  Inl e \<Rightarrow> Inl e
                | Inr acc \<Rightarrow> Inr (mean (fst acc), mean (snd acc)))))"

subsection \<open>One week\<close>

text \<open>The accumulators of \<^verbatim>\<open>_create_weekly_aggregate\<close>.\<close>

record accum =
  acc_total_distance :: real
  acc_total_duration :: real
  acc_total_elevation :: real
  acc_total_training_load :: real
  acc_activities_by_type :: "(pyval \<times> int) list"
  acc_distance_by_type :: "(pyval \<times> real) list"
  acc_duration_by_type :: "(pyval \<times> real) list"
  acc_heart_rates :: "real list"
  acc_max_hrs :: "int list"
  acc_longest_distance :: real
  acc_longest_duration :: real
  acc_highest_intensity_type :: pyval
  acc_max_intensity_load :: real

definition init_accum :: accum where
  "init_accum =
     \<lparr>acc_total_distance = 0, acc_total_duration = 0, acc_total_elevation = 0,
      acc_total_training_load = 0, acc_activities_by_type = [], acc_distance_by_type = [],
      acc_duration_by_type = [], acc_heart_rates = [], acc_max_hrs = [],
      acc_longest_distance = 0, acc_longest_duration = 0,
      acc_highest_intensity_type = PNone, acc_max_intensity_load = 0\<rparr>"

text \<open>
  The body of the loop over the week's activities, in the order of the statements.
  \<^verbatim>\<open>activity.get\<close> and \<^verbatim>\<open>summary.get\<close> raise AttributeError on a value that is no
  dict, \<^verbatim>\<open>_safe_float\<close> lets an OverflowError through, and an unhashable activity
  type raises TypeError at the first by-type update, after the four volume fields are
  coerced and before the heart rates are; nothing catches any of them.
\<close>

definition aggregate_step :: "builtins \<Rightarrow> pyval \<Rightarrow> accum \<Rightarrow> py_error + accum" where
  "aggregate_step B activity st =
     (case activity of
        PDict akvs \<Rightarrow>
          (let activity_type = dict_get akvs ''activity_type'' (PStr ''unknown'') in
           case dict_get akvs ''summary'' (PDict []) of
             PDict summary \<Rightarrow>
               (case safe_float B (dict_get summary ''distance'' (PInt 0)) 0 of
                  Inl e \<Rightarrow> Inl e
                | Inr distance_m \<Rightarrow>
               (case safe_float B (dict_get summary ''duration'' (PInt 0)) 0 of
                  Inl e \<Rightarrow> Inl e
                | Inr duration_s \<Rightarrow>
               (case safe_float B (dict_get summary ''elevation_gain'' (PInt 0)) 0 of
                  Inl e \<Rightarrow> Inl e
                | Inr elevation \<Rightarrow>
               (case safe_float B (dict_get summary ''activity_training_load'' (PInt 0)) 0 of
                  Inl e \<Rightarrow> Inl e
                | Inr training_load \<Rightarrow>
               if \<not> hashable activity_type then Inl TypeError
               else
               (case safe_float B (dict_get summary ''average_hr'' PNone) 0 of
                  Inl e \<Rightarrow> Inl e
                | Inr avg_hr \<Rightarrow>
               (case safe_int B (dict_get summary ''max_hr'' PNone) 0 of
                  Inl e \<Rightarrow> Inl e
                | Inr max_hr \<Rightarrow>
               (let distance_km = (if distance_m \<noteq> 0 then distance_m / 1000 else 0);
                    duration_h = (if duration_s \<noteq> 0 then duration_s / 3600 else 0)
                in Inr
                  \<lparr>acc_total_distance = acc_total_distance st + distance_km,
                   acc_total_duration = acc_total_duration st + duration_h,
                   acc_total_elevation = acc_total_elevation st + elevation,
                   acc_total_training_load = acc_total_training_load st + training_load,
                   acc_activities_by_type =
                     dd_add (acc_activities_by_type st) activity_type 0 (\<lambda>n. n + 1),
                   acc_distance_by_type =
                     dd_add (acc_distance_by_type st) activity_type 0 (\<lambda>x. x + distance_km),
                   acc_duration_by_type =
                     dd_add (acc_duration_by_type st) activity_type 0 (\<lambda>x. x + duration_h),
                   acc_heart_rates =
                     (if avg_hr > 0 then acc_heart_rates st @ [avg_hr] else acc_heart_rates st),
                   acc_max_hrs =
                     (if max_hr > 0 then acc_max_hrs st @ [max_hr] else acc_max_hrs st),
                   acc_longest_distance =
                     (if distance_km > acc_longest_distance st then distance_km
                      else acc_longest_distance st),
                   acc_longest_duration =
                     (if duration_h > acc_longest_duration st then duration_h
                      else acc_longest_duration st),
                   acc_highest_intensity_type =
                     (if training_load > acc_max_intensity_load st then activity_type
                      else acc_highest_intensity_type st),
                   acc_max_intensity_load =
                     (if training_load > acc_max_intensity_load st then training_load
                      else acc_max_intensity_load st)\<rparr>)))))))
           | _ \<Rightarrow> Inl AttributeError)
      | _ \<Rightarrow> Inl AttributeError)"

definition list_max :: "int list \<Rightarrow> int" where
  "list_max xs = fold max (tl xs) (hd xs)"

definition create_weekly_aggregate ::
  "builtins \<Rightarrow> date \<Rightarrow> pyval list \<Rightarrow> pyval \<Rightarrow> int \<Rightarrow> py_error + weekly_aggregate" where
  "create_weekly_aggregate B wk_start activities garmin_data wk_number =
     (case date_plus_days wk_start 6 of
        Inl e \<Rightarrow> Inl e
      | Inr wk_end \<Rightarrow>
          (case for_each (aggregate_step B) activities init_accum of
             Inl e \<Rightarrow> Inl e
           | Inr st \<Rightarrow>
               (case extract_weekly_recovery_metrics B garmin_data wk_start wk_end of
                  Inl e \<Rightarrow> Inl e
                | Inr rec \<Rightarrow>
                    Inr \<lparr>week_start = wk_start,
                         week_end = wk_end,
                         week_number = wk_number,
                         total_activities = length activities,
                         total_distance_km = acc_total_distance st,
                         total_duration_hours = acc_total_duration st,
                         total_elevation_gain_m = acc_total_elevation st,
                         activities_by_type = acc_activities_by_type st,
                         distance_by_type = acc_distance_by_type st,
                         duration_by_type = acc_duration_by_type st,
                         avg_heart_rate = mean (acc_heart_rates st),
                         max_heart_rate =
                           (if acc_max_hrs st \<noteq> [] then Some (list_max (acc_max_hrs st))
                            else None),
                         total_training_load =
                           (if acc_total_training_load st > 0
                            then Some (acc_total_training_load st) else None),
                         longest_activity_distance_km =
                           (if acc_longest_distance st > 0
                            then Some (acc_longest_distance st) else None),
                         longest_activity_duration_hours =
                           (if acc_longest_duration st > 0
                            then Some (acc_longest_duration st) else None),
                         highest_intensity_activity = acc_highest_intensity_type st,
                         avg_resting_hr = fst rec,
                         avg_sleep_hours = snd rec\<rparr>)))"

subsection \<open>All weeks of the window\<close>

text \<open>
  The first loop of \<^verbatim>\<open>_aggregate_by_week\<close>: \<^verbatim>\<open>weeks\<close> is a
  \<^verbatim>\<open>defaultdict(list)\<close> from week start to the activities of that week.
\<close>

definition group_step ::
  "builtins \<Rightarrow> pyval \<Rightarrow> (date \<rightharpoonup> pyval list) \<Rightarrow> py_error + (date \<rightharpoonup> pyval list)" where
  "group_step B activity weeks =
     (case parse_activity_date B activity of
        Inl e \<Rightarrow> Inl e
      | Inr None \<Rightarrow> Inr weeks
      | Inr (Some activity_date) \<Rightarrow>
          (case get_week_start activity_date of
             Inl e \<Rightarrow> Inl e
           | Inr wk_start \<Rightarrow>
               Inr (weeks(wk_start \<mapsto>
                     (case weeks wk_start of None \<Rightarrow> [] | Some l \<Rightarrow> l) @ [activity]))))"

text \<open>\<^verbatim>\<open>weeks.get(current_week, [])\<close>.\<close>

definition weeks_get :: "(date \<rightharpoonup> pyval list) \<Rightarrow> date \<Rightarrow> pyval list" where
  "weeks_get weeks current_week = (case weeks current_week of None \<Rightarrow> [] | Some l \<Rightarrow> l)"

text \<open>
  The \<^verbatim>\<open>while current_week < end_date\<close> loop, with the aggregates built so far. Each
  round moves \<open>current_week\<close> seven days on, or raises.
\<close>

function week_loop ::
  "builtins \<Rightarrow> pyval \<Rightarrow> (date \<rightharpoonup> pyval list) \<Rightarrow> date \<Rightarrow> date \<Rightarrow> int
     \<Rightarrow> weekly_aggregate list \<Rightarrow> py_error + weekly_aggregate list" where
  "week_loop B garmin_data weeks end_date current_week wk_number aggregates =
     (if current_week < end_date then
        (case create_weekly_aggregate B current_week (weeks_get weeks current_week)
                garmin_data wk_number of
           Inl e \<Rightarrow> Inl e
         | Inr aggregate \<Rightarrow>
             (case date_plus_days current_week 7 of
                Inl e \<Rightarrow> Inl e
              | Inr next_week \<Rightarrow>
                  week_loop B garmin_data weeks end_date next_week (wk_number + 1)
                    (aggregates @ [aggregate])))
      else Inr aggregates)"
  by pat_completeness auto
termination
  by (relation "measure (\<lambda>(B, g, w, end_date, current_week, n, a). nat (end_date - current_week))")
     (auto simp: date_plus_days_def timedelta_def date_add_def split: if_splits)

declare week_loop.simps [simp del]

text \<open>
  \<^verbatim>\<open>_aggregate_by_week\<close> up to and including the sort by week start (a stable sort);
  \<open>aggregate_by_week\<close> below projects each aggregate with \<^verbatim>\<open>to_dict\<close>.
\<close>

definition weekly_aggregates ::
  "builtins \<Rightarrow> pyval list \<Rightarrow> pyval \<Rightarrow> date \<Rightarrow> date \<Rightarrow> py_error + weekly_aggregate list" where
  "weekly_aggregates B activities garmin_data start_date end_date =
     (case for_each (group_step B) activities Map.empty of
        Inl e \<Rightarrow> Inl e
      | Inr weeks \<Rightarrow>
          (case get_week_start start_date of
             Inl e \<Rightarrow> Inl e
           | Inr current_week \<Rightarrow>
               (case week_loop B garmin_data weeks end_date current_week 1 [] of
                  Inl e \<Rightarrow> Inl e
                | Inr aggregates \<Rightarrow> Inr (sort_key week_start aggregates))))"

subsection \<open>Projection of an aggregate\<close>

text \<open>
  \<^verbatim>\<open>round(x, n)\<close> on the real value: to the nearest multiple of \<open>10 ^ -n\<close>, a tie to
  the even one.
\<close>

definition round_half_even :: "real \<Rightarrow> int" where
  "round_half_even x =
     (let f = \<lfloor>x\<rfloor>; r = x - of_int f
      in if r < 1 / 2 then f else if r > 1 / 2 then f + 1 else if even f then f else f + 1)"

definition py_round :: "real \<Rightarrow> nat \<Rightarrow> real" where
  "py_round x n = of_int (round_half_even (x * 10 ^ n)) / 10 ^ n"

text \<open>\<^verbatim>\<open>round(x, n) if x else None\<close> on an optional float: None and 0.0 are falsy.\<close>

definition round_if :: "real option \<Rightarrow> nat \<Rightarrow> real option" where
  "round_if x n =
     (case x of None \<Rightarrow> None | Some v \<Rightarrow> if v \<noteq> 0 then Some (py_round v n) else None)"

text \<open>
  The dict of \<^verbatim>\<open>WeeklyAggregate.to_dict\<close>, one field per leaf: the groups
  \<^verbatim>\<open>volume\<close>, \<^verbatim>\<open>by_activity_type\<close>, \<^verbatim>\<open>intensity\<close>, \<^verbatim>\<open>key_sessions\<close> and
  \<^verbatim>\<open>recovery\<close> are flattened, the group's name kept as a prefix where the key alone
  would be ambiguous.
\<close>

record week_dict =
  d_week_start :: date
  d_week_end :: date
  d_week_number :: int
  volume_total_activities :: nat
  volume_total_distance_km :: real
  volume_total_duration_hours :: real
  volume_total_elevation_gain_m :: real
  by_type_counts :: "(pyval \<times> int) list"
  by_type_distance_km :: "(pyval \<times> real) list"
  by_type_duration_hours :: "(pyval \<times> real) list"
  intensity_avg_heart_rate :: "real option"
  intensity_max_heart_rate :: "int option"
  intensity_total_training_load :: "real option"
  key_longest_distance_km :: "real option"
  key_longest_duration_hours :: "real option"
  key_highest_intensity_type :: pyval
  recovery_avg_resting_hr :: "real option"
  recovery_avg_sleep_hours :: "real option"

definition to_dict :: "weekly_aggregate \<Rightarrow> week_dict" where
  "to_dict self =
     \<lparr>d_week_start = week_start self,
      d_week_end = week_end self,
      d_week_number = week_number self,
      volume_total_activities = total_activities self,
      volume_total_distance_km = py_round (total_distance_km self) 2,
      volume_total_duration_hours = py_round (total_duration_hours self) 2,
      volume_total_elevation_gain_m = py_round (total_elevation_gain_m self) 2,
      by_type_counts = activities_by_type self,
      by_type_distance_km = map (\<lambda>kv. (fst kv, py_round (snd kv) 2)) (distance_by_type self),
      by_type_duration_hours = map (\<lambda>kv. (fst kv, py_round (snd kv) 2)) (duration_by_type self),
      intensity_avg_heart_rate = round_if (avg_heart_rate self) 1,
      intensity_max_heart_rate = max_heart_rate self,
      intensity_total_training_load = round_if (total_training_load self) 1,
      key_longest_distance_km = round_if (longest_activity_distance_km self) 2,
      key_longest_duration_hours = round_if (longest_activity_duration_hours self) 2,
      key_highest_intensity_type = highest_intensity_activity self,
      recovery_avg_resting_hr = round_if (avg_resting_hr self) 1,
      recovery_avg_sleep_hours = round_if (avg_sleep_hours self) 2\<rparr>"

definition aggregate_by_week ::
  "builtins \<Rightarrow> pyval list \<Rightarrow> pyval \<Rightarrow> date \<Rightarrow> date \<Rightarrow> py_error + week_dict list" where
  "aggregate_by_week B activities garmin_data start_date end_date =
     (case weekly_aggregates B activities garmin_data start_date end_date of
        Inl e \<Rightarrow> Inl e
      | Inr aggregates \<Rightarrow> Inr (map to_dict aggregates))"

section \<open>Current-state extractor\<close>

text \<open>
  \<^verbatim>\<open>_extract_current_metrics\<close> returns a dict; \<^verbatim>\<open>d.get(key)\<close> is None where the key
  is missing.
\<close>

definition extract_current_metrics :: "pyval \<Rightarrow> py_error + pyval" where
  "extract_current_metrics garmin_data =
     (case py_get garmin_data ''physiological_markers'' (PDict []) of Inl e \<Rightarrow> Inl e
      | Inr physiological \<Rightarrow>
     (case py_get garmin_data ''training_status'' (PDict []) of Inl e \<Rightarrow> Inl e
      | Inr training_status \<Rightarrow>
     (case py_get garmin_data ''daily_stats'' (PDict []) of Inl e \<Rightarrow> Inl e
      | Inr daily_stats \<Rightarrow>
     (case py_get physiological ''resting_heart_rate'' PNone of Inl e \<Rightarrow> Inl e
      | Inr resting_heart_rate \<Rightarrow>
     (case py_get physiological ''vo2_max'' PNone of Inl e \<Rightarrow> Inl e
      | Inr vo2_max \<Rightarrow>
     (case py_get physiological ''hrv'' PNone of Inl e \<Rightarrow> Inl e
      | Inr hrv \<Rightarrow>
     (case py_get training_status ''acute_training_load'' (PDict []) of Inl e \<Rightarrow> Inl e
      | Inr atl \<Rightarrow>
     (case py_get atl ''acute_load'' PNone of Inl e \<Rightarrow> Inl e
      | Inr acute \<Rightarrow>
     (case py_get atl ''chronic_load'' PNone of Inl e \<Rightarrow> Inl e
      | Inr chronic \<Rightarrow>
     (case py_get atl ''acwr'' PNone of Inl e \<Rightarrow> Inl e
      | Inr acwr \<Rightarrow>
     (case py_get daily_stats ''average_stress_level'' PNone of Inl e \<Rightarrow> Inl e
      | Inr current_stress \<Rightarrow>
     (case py_get daily_stats ''resting_heart_rate'' PNone of Inl e \<Rightarrow> Inl e
      | Inr current_rhr \<Rightarrow>
        Inr (PDict
          [(''resting_heart_rate'', resting_heart_rate),
           (''vo2_max'', vo2_max),
           (''hrv'', hrv),
           (''training_load'',
              PDict [(''acute'', acute), (''chronic'', chronic), (''acwr'', acwr)]),
           (''current_stress'', current_stress),
           (''current_rhr'', current_rhr)])))))))))))))"

section \<open>Orchestrator\<close>

record prepared_context =
  recent_activities :: "pyval list"
  weekly_trends :: "week_dict list"
  current_metrics :: pyval
  preparation_date :: date
  recent_window_days :: int
  trends_window_days :: int

text \<open>
  \<^verbatim>\<open>prepare_agent_context\<close>. The window lengths are ints; \<open>analysis_date\<close> is
  \<open>None\<close> where the caller leaves the default.
\<close>

definition prepare_agent_context ::
  "builtins \<Rightarrow> pyval \<Rightarrow> date option \<Rightarrow> int \<Rightarrow> int \<Rightarrow> py_error + prepared_context" where
  "prepare_agent_context B garmin_data analysis_date recent_days trends_days =
     (let the_date = (case analysis_date of None \<Rightarrow> date_today B | Some d \<Rightarrow> d) in
      case py_get garmin_data ''recent_activities'' (PList []) of Inl e \<Rightarrow> Inl e
      | Inr activities \<Rightarrow>
     (case date_minus_days the_date recent_days of Inl e \<Rightarrow> Inl e
      | Inr recent_cutoff \<Rightarrow>
     (case date_minus_days the_date trends_days of Inl e \<Rightarrow> Inl e
      | Inr trends_cutoff \<Rightarrow>
     (case py_iter activities of Inl e \<Rightarrow> Inl e
      | Inr activity_list \<Rightarrow>
     (case split_activities B recent_cutoff trends_cutoff activity_list of Inl e \<Rightarrow> Inl e
      | Inr buckets \<Rightarrow>
     (case aggregate_by_week B (snd buckets) garmin_data trends_cutoff recent_cutoff of
        Inl e \<Rightarrow> Inl e
      | Inr trends \<Rightarrow>
     (case extract_current_metrics garmin_data of Inl e \<Rightarrow> Inl e
      | Inr metrics \<Rightarrow>
        Inr \<lparr>recent_activities = fst buckets,
             weekly_trends = trends,
             current_metrics = metrics,
             preparation_date = the_date,
             recent_window_days = recent_days,
             trends_window_days = trends_days\<rparr>)))))))"


section \<open>Reading the inputs\<close>

text \<open>
  What the properties below say about a dataset is said through these readers: the date
  of the analysis, the activity list the orchestrator walks, the recovery list the join
  walks, and the fields of one activity or one recovery entry as the code reads them.
\<close>

definition analysis_day :: "builtins \<Rightarrow> date option \<Rightarrow> date" where
  "analysis_day B analysis_date = (case analysis_date of None \<Rightarrow> date_today B | Some d \<Rightarrow> d)"

definition input_activities :: "pyval \<Rightarrow> pyval list" where
  "input_activities garmin_data =
     (case py_get garmin_data ''recent_activities'' (PList []) of
        Inl e \<Rightarrow> []
      | Inr v \<Rightarrow> (case py_iter v of Inl e \<Rightarrow> [] | Inr xs \<Rightarrow> xs))"

definition recovery_entries :: "pyval \<Rightarrow> pyval list" where
  "recovery_entries garmin_data =
     (case py_get garmin_data ''recovery_indicators'' (PList []) of
        Inl e \<Rightarrow> []
      | Inr v \<Rightarrow> (case py_iter v of Inl e \<Rightarrow> [] | Inr xs \<Rightarrow> xs))"

text \<open>The date of an activity, where the extraction returns one.\<close>

definition date_of :: "builtins \<Rightarrow> pyval \<Rightarrow> date option" where
  "date_of B activity =
     (case parse_activity_date B activity of Inl e \<Rightarrow> None | Inr r \<Rightarrow> r)"

text \<open>The historical bucket: the activities dated after the trends cutoff and not after the recent one.\<close>

definition historical_bucket :: "builtins \<Rightarrow> pyval \<Rightarrow> date \<Rightarrow> date \<Rightarrow> pyval list" where
  "historical_bucket B garmin_data recent_cutoff trends_cutoff =
     filter (\<lambda>a. case date_of B a of None \<Rightarrow> False
                 | Some d \<Rightarrow> d \<le> recent_cutoff \<and> d > trends_cutoff)
       (input_activities garmin_data)"

definition monday_on_or_before :: "date \<Rightarrow> date" where
  "monday_on_or_before d = d - weekday d"

text \<open>The activities of a list that fall in the week starting at \<open>w\<close>, in their order.\<close>

definition in_week :: "builtins \<Rightarrow> date \<Rightarrow> pyval \<Rightarrow> bool" where
  "in_week B w activity =
     (case date_of B activity of None \<Rightarrow> False | Some d \<Rightarrow> monday_on_or_before d = w)"

definition week_activities :: "builtins \<Rightarrow> pyval list \<Rightarrow> date \<Rightarrow> pyval list" where
  "week_activities B activities w = filter (in_week B w) activities"

definition activity_type_of :: "pyval \<Rightarrow> pyval" where
  "activity_type_of activity =
     (case activity of
        PDict akvs \<Rightarrow> dict_get akvs ''activity_type'' (PStr ''unknown'')
      | _ \<Rightarrow> PNone)"

definition summary_of :: "pyval \<Rightarrow> (string \<times> pyval) list" where
  "summary_of activity =
     (case activity of
        PDict akvs \<Rightarrow> (case dict_get akvs ''summary'' (PDict []) of PDict s \<Rightarrow> s | _ \<Rightarrow> [])
      | _ \<Rightarrow> [])"

text \<open>
  The number \<^verbatim>\<open>_safe_float\<close> returns for a field (the default where it raises), and
  the four numeric fields of an activity's summary that the properties speak of.
\<close>

definition coerced :: "builtins \<Rightarrow> pyval \<Rightarrow> real \<Rightarrow> real" where
  "coerced B v dflt = (case safe_float B v dflt of Inl e \<Rightarrow> dflt | Inr r \<Rightarrow> r)"

definition distance_m_of :: "builtins \<Rightarrow> pyval \<Rightarrow> real" where
  "distance_m_of B activity = coerced B (dict_get (summary_of activity) ''distance'' (PInt 0)) 0"

definition duration_s_of :: "builtins \<Rightarrow> pyval \<Rightarrow> real" where
  "duration_s_of B activity = coerced B (dict_get (summary_of activity) ''duration'' (PInt 0)) 0"

definition training_load_of :: "builtins \<Rightarrow> pyval \<Rightarrow> real" where
  "training_load_of B activity =
     coerced B (dict_get (summary_of activity) ''activity_training_load'' (PInt 0)) 0"

definition average_hr_of :: "builtins \<Rightarrow> pyval \<Rightarrow> real" where
  "average_hr_of B activity = coerced B (dict_get (summary_of activity) ''average_hr'' PNone) 0"

text \<open>The sum of the coerced training loads of the week starting at \<open>w\<close>.\<close>

definition week_load_sum :: "builtins \<Rightarrow> pyval list \<Rightarrow> date \<Rightarrow> real" where
  "week_load_sum B activities w =
     sum_list (map (training_load_of B) (week_activities B activities w))"

text \<open>
  The first element of a list that attains the greatest value of \<open>f\<close>: a later element
  replaces an earlier one only when its value is strictly greater.
\<close>

fun first_max :: "('a \<Rightarrow> real) \<Rightarrow> 'a list \<Rightarrow> 'a option" where
  "first_max f [] = None"
| "first_max f (x # xs) =
     (case first_max f xs of
        None \<Rightarrow> Some x
      | Some y \<Rightarrow> if f y > f x then Some y else Some x)"

text \<open>
  The highest-intensity type as the specification words it: the type tag of the activity
  owning the highest training load of the week, the first one on a tie, null if there
  is none.
\<close>

definition spec_highest_intensity_type :: "builtins \<Rightarrow> pyval list \<Rightarrow> pyval" where
  "spec_highest_intensity_type B activities =
     (case first_max (training_load_of B) activities of
        None \<Rightarrow> PNone
      | Some a \<Rightarrow> activity_type_of a)"

text \<open>
  One recovery entry: its date, its resting heart rate and its sleep total as the join
  reads them, and the numbers a value adds to a list: none when the value is falsy or
  when \<^verbatim>\<open>float\<close> rejects it.
\<close>

definition entry_date :: "builtins \<Rightarrow> pyval \<Rightarrow> date option" where
  "entry_date B entry =
     (case entry of
        PDict ekvs \<Rightarrow>
          (case dict_get ekvs ''date'' (PStr '''') of PStr s \<Rightarrow> fromisoformat B s | _ \<Rightarrow> None)
      | _ \<Rightarrow> None)"

definition sleep_of :: "pyval \<Rightarrow> (string \<times> pyval) list" where
  "sleep_of entry =
     (case entry of
        PDict ekvs \<Rightarrow> (case dict_get ekvs ''sleep'' (PDict []) of PDict s \<Rightarrow> s | _ \<Rightarrow> [])
      | _ \<Rightarrow> [])"

definition rhr_of :: "pyval \<Rightarrow> pyval" where
  "rhr_of entry = dict_get (sleep_of entry) ''resting_heart_rate'' PNone"

definition total_sleep_of :: "pyval \<Rightarrow> pyval" where
  "total_sleep_of entry =
     (case dict_get (sleep_of entry) ''duration'' (PDict []) of
        PDict duration_info \<Rightarrow> dict_get duration_info ''total'' PNone
      | _ \<Rightarrow> PNone)"

definition float_values :: "builtins \<Rightarrow> pyval \<Rightarrow> real list" where
  "float_values B v =
     (if truthy v then (case py_float B v of Inl e \<Rightarrow> [] | Inr r \<Rightarrow> [r]) else [])"

definition rhr_rejected :: "builtins \<Rightarrow> pyval \<Rightarrow> bool" where
  "rhr_rejected B entry =
     (truthy (rhr_of entry) \<and> (case py_float B (rhr_of entry) of Inl e \<Rightarrow> True | Inr r \<Rightarrow> False))"

definition in_range :: "builtins \<Rightarrow> date \<Rightarrow> date \<Rightarrow> pyval \<Rightarrow> bool" where
  "in_range B wk_start wk_end entry =
     (case entry_date B entry of None \<Rightarrow> False | Some d \<Rightarrow> wk_start \<le> d \<and> d \<le> wk_end)"

text \<open>
  What the join collects for the week from \<open>wk_start\<close> to \<open>wk_end\<close>: the resting
  heart rates of the entries dated within the week, and their sleep totals, except that
  an entry whose resting heart rate is rejected by \<^verbatim>\<open>float\<close> is left by the handler
  before its sleep total is read.
\<close>

definition week_rhrs :: "builtins \<Rightarrow> date \<Rightarrow> date \<Rightarrow> pyval list \<Rightarrow> real list" where
  "week_rhrs B wk_start wk_end entries =
     concat (map (\<lambda>e. float_values B (rhr_of e)) (filter (in_range B wk_start wk_end) entries))"

definition week_sleeps :: "builtins \<Rightarrow> date \<Rightarrow> date \<Rightarrow> pyval list \<Rightarrow> real list" where
  "week_sleeps B wk_start wk_end entries =
     concat (map (\<lambda>e. if rhr_rejected B e then [] else float_values B (total_sleep_of e))
              (filter (in_range B wk_start wk_end) entries))"

text \<open>
  The sleep totals as the specification words the average: every entry dated within the
  week contributes its total, whatever its resting heart rate is.
\<close>

definition spec_week_sleeps :: "builtins \<Rightarrow> date \<Rightarrow> date \<Rightarrow> pyval list \<Rightarrow> real list" where
  "spec_week_sleeps B wk_start wk_end entries =
     concat (map (\<lambda>e. float_values B (total_sleep_of e))
              (filter (in_range B wk_start wk_end) entries))"

text \<open>
  A recovery value that is absent or a number not below zero; an entry without the
  resting heart rate of its sleep block, and one without the total of its duration block.
\<close>

fun nonneg_number :: "pyval \<Rightarrow> bool" where
  "nonneg_number PNone = True"
| "nonneg_number (PInt i) = (0 \<le> i)"
| "nonneg_number (PFloat r) = (0 \<le> r)"
| "nonneg_number _ = False"

definition is_zero :: "pyval \<Rightarrow> bool" where
  "is_zero v = (v = PInt 0 \<or> v = PFloat 0)"

definition del_key :: "string \<Rightarrow> (string \<times> pyval) list \<Rightarrow> (string \<times> pyval) list" where
  "del_key k kvs = filter (\<lambda>kv. fst kv \<noteq> k) kvs"

definition without_rhr :: "pyval \<Rightarrow> pyval" where
  "without_rhr entry =
     (case entry of
        PDict ekvs \<Rightarrow>
          PDict ((''sleep'', PDict (del_key ''resting_heart_rate'' (sleep_of entry))) # ekvs)
      | _ \<Rightarrow> entry)"

definition without_total_sleep :: "pyval \<Rightarrow> pyval" where
  "without_total_sleep entry =
     (case entry of
        PDict ekvs \<Rightarrow>
          (case dict_get (sleep_of entry) ''duration'' (PDict []) of
             PDict duration_info \<Rightarrow>
               PDict ((''sleep'',
                        PDict ((''duration'', PDict (del_key ''total'' duration_info))
                               # sleep_of entry)) # ekvs)
           | _ \<Rightarrow> entry)
      | _ \<Rightarrow> entry)"

text \<open>An optional value that, when present, is strictly positive, or not below zero.\<close>

definition positive_if_present :: "real option \<Rightarrow> bool" where
  "positive_if_present x = (case x of None \<Rightarrow> True | Some v \<Rightarrow> 0 < v)"

definition nonneg_if_present :: "real option \<Rightarrow> bool" where
  "nonneg_if_present x = (case x of None \<Rightarrow> True | Some v \<Rightarrow> 0 \<le> v)"

text \<open>
  An emitted number \<open>y\<close> that is \<open>x\<close> rounded to \<open>n\<close> decimals: a multiple of
  \<open>10 ^ -n\<close> at most half a unit away from \<open>x\<close>. At a tie both neighbours qualify:
  which one \<^verbatim>\<open>round\<close> picks depends on the binary digits of the float. And an emitted
  optional number that is \<^verbatim>\<open>round(x, n) if x else None\<close>.
\<close>

definition rounds_to :: "real \<Rightarrow> nat \<Rightarrow> real \<Rightarrow> bool" where
  "rounds_to x n y = (y * 10 ^ n = of_int \<lfloor>y * 10 ^ n\<rfloor> \<and> \<bar>y - x\<bar> * 10 ^ n \<le> 1 / 2)"

definition rounds_if :: "real option \<Rightarrow> nat \<Rightarrow> real option \<Rightarrow> bool" where
  "rounds_if x n y =
     (case x of
        None \<Rightarrow> y = None
      | Some v \<Rightarrow>
          if v = 0 then y = None
          else (case y of None \<Rightarrow> False | Some w \<Rightarrow> rounds_to v n w))"

text \<open>A field of an input block as the current-state extractor must show it.\<close>

definition field_or_null :: "(string \<times> pyval) list \<Rightarrow> string \<Rightarrow> pyval" where
  "field_or_null block k = (case map_of block k of None \<Rightarrow> PNone | Some v \<Rightarrow> v)"

section \<open>A reference instance of the library parameters\<close>

text \<open>
  For evaluation on concrete data: the canonical encodings only. Dates are
  \<^verbatim>\<open>YYYY-MM-DD\<close>, timestamps \<^verbatim>\<open>YYYY-MM-DDTHH:MM:SS\<close> with an optional
  \<^verbatim>\<open>+HH:MM\<close> or \<^verbatim>\<open>-HH:MM\<close> offset, numbers are plain decimal literals. The ordinal
  of a date follows \<^verbatim>\<open>datetime._ymd2ord\<close>. The general properties do not depend on
  this instance: they hold for every value of the parameters.
\<close>

definition digit :: "char \<Rightarrow> int option" where
  "digit c = (let n = int (of_char c) in if 48 \<le> n \<and> n \<le> 57 then Some (n - 48) else None)"

fun number_acc :: "int \<Rightarrow> string \<Rightarrow> int option" where
  "number_acc acc [] = Some acc"
| "number_acc acc (c # cs) =
     (case digit c of None \<Rightarrow> None | Some v \<Rightarrow> number_acc (10 * acc + v) cs)"

definition number :: "string \<Rightarrow> int option" where
  "number s = (if s = [] then None else number_acc 0 s)"

definition is_leap :: "int \<Rightarrow> bool" where
  "is_leap y = (y mod 4 = 0 \<and> (y mod 100 \<noteq> 0 \<or> y mod 400 = 0))"

definition days_in_month :: "int \<Rightarrow> int \<Rightarrow> int" where
  "days_in_month y m =
     (if m = 2 then (if is_leap y then 29 else 28)
      else if m = 4 \<or> m = 6 \<or> m = 9 \<or> m = 11 then 30 else 31)"

definition days_before_year :: "int \<Rightarrow> int" where
  "days_before_year y = (y - 1) * 365 + (y - 1) div 4 - (y - 1) div 100 + (y - 1) div 400"

definition days_before_month :: "int \<Rightarrow> int \<Rightarrow> int" where
  "days_before_month y m = sum_list (map (days_in_month y) [1..m - 1])"

definition ymd2ord :: "int \<Rightarrow> int \<Rightarrow> int \<Rightarrow> date option" where
  "ymd2ord y m d =
     (if 1 \<le> y \<and> y \<le> 9999 \<and> 1 \<le> m \<and> m \<le> 12 \<and> 1 \<le> d \<and> d \<le> days_in_month y m
      then Some (days_before_year y + days_before_month y m + d) else None)"

definition iso_date :: "string \<Rightarrow> date option" where
  "iso_date s =
     (if length s = 10 \<and> s ! 4 = CHR ''-'' \<and> s ! 7 = CHR ''-'' then
        (case number (take 4 s) of None \<Rightarrow> None | Some y \<Rightarrow>
        (case number (take 2 (drop 5 s)) of None \<Rightarrow> None | Some m \<Rightarrow>
        (case number (drop 8 s) of None \<Rightarrow> None | Some d \<Rightarrow> ymd2ord y m d)))
      else None)"

definition two_digits_below :: "int \<Rightarrow> string \<Rightarrow> bool" where
  "two_digits_below n s =
     (length s = 2 \<and> (case number s of None \<Rightarrow> False | Some v \<Rightarrow> v < n))"

definition iso_time :: "string \<Rightarrow> bool" where
  "iso_time s =
     (length s = 8 \<and> s ! 2 = CHR '':'' \<and> s ! 5 = CHR '':'' \<and> two_digits_below 24 (take 2 s)
      \<and> two_digits_below 60 (take 2 (drop 3 s)) \<and> two_digits_below 60 (drop 6 s))"

definition iso_offset :: "string \<Rightarrow> bool" where
  "iso_offset s =
     (s = [] \<or>
      (length s = 6 \<and> (s ! 0 = CHR ''+'' \<or> s ! 0 = CHR ''-'') \<and> s ! 3 = CHR '':''
       \<and> two_digits_below 24 (take 2 (drop 1 s)) \<and> two_digits_below 60 (drop 4 s)))"

definition iso_datetime :: "string \<Rightarrow> date option" where
  "iso_datetime s =
     (if length s = 10 then iso_date s
      else if 11 \<le> length s \<and> s ! 10 = CHR ''T'' \<and> iso_time (take 8 (drop 11 s))
              \<and> iso_offset (drop 19 s)
      then iso_date (take 10 s) else None)"

definition signed_number :: "string \<Rightarrow> int option" where
  "signed_number s =
     (case s of
        [] \<Rightarrow> None
      | c # cs \<Rightarrow>
          if c = CHR ''-'' then map_option uminus (number cs)
          else if c = CHR ''+'' then number cs else number s)"

definition decimal :: "string \<Rightarrow> real option" where
  "decimal s =
     (let ip = takeWhile (\<lambda>c. c \<noteq> CHR ''.'') s; fp = drop (length ip + 1) s in
      if CHR ''.'' \<in> set s then
        (case signed_number ip of None \<Rightarrow> None | Some i \<Rightarrow>
        (case number fp of None \<Rightarrow> None | Some f \<Rightarrow>
           Some ((if hd ip = CHR ''-'' then - 1 else 1)
                 * (real_of_int \<bar>i\<bar> + real_of_int f / 10 ^ length fp))))
      else map_option real_of_int (signed_number s))"

text \<open>The clock of the instance stands at Monday 2025-11-24 (ordinal 739579).\<close>

definition std :: builtins where
  "std = \<lparr>str_float = decimal, str_int = signed_number, fromisoformat = iso_datetime,
          strptime_ymd = iso_date, date_today = 739579\<rparr>"

section \<open>Sample datasets\<close>

text \<open>
  With the clock at Monday 2025-11-24, a recent window of 14 days and a trends window of
  28 days, the recent cutoff is Monday 2025-11-10 (ordinal 739565) and the trends cutoff
  is Monday 2025-10-27 (ordinal 739551): the weeks walked start on 2025-10-27 and on
  2025-11-03.
\<close>

definition run :: "string \<Rightarrow> pyval \<Rightarrow> pyval" where
  "run start_time summary =
     PDict [(''activity_type'', PStr ''running''), (''start_time'', PStr start_time),
            (''summary'', summary)]"

definition ride :: "string \<Rightarrow> pyval \<Rightarrow> pyval" where
  "ride start_time summary =
     PDict [(''activity_type'', PStr ''cycling''), (''start_time'', PStr start_time),
            (''summary'', summary)]"

definition partition_data :: pyval where
  "partition_data =
     PDict [(''recent_activities'',
       PList [run ''2025-11-20T06:00:00'' (PDict [(''distance'', PInt 5000)]),
              run ''2025-11-05T07:00:00Z'' (PDict [(''distance'', PStr ''7000.5'')]),
              run ''2025-10-27'' (PDict [(''distance'', PInt 9000)]),
              run ''yesterday'' (PDict [(''distance'', PInt 100)]),
              run ''2025-11-09'' (PDict [(''distance'', PInt 20000)]),
              run ''2025-11-10'' (PDict [(''distance'', PInt 3000)])])]"

definition metrics_data :: pyval where
  "metrics_data =
     PDict [(''recent_activities'', PList []),
            (''physiological_markers'',
               PDict [(''resting_heart_rate'', PInt 52), (''vo2_max'', PFloat (117 / 2)),
                      (''hrv'', PDict [(''weekly_avg'', PInt 65)])]),
            (''training_status'',
               PDict [(''acute_training_load'',
                         PDict [(''acute_load'', PInt 0), (''chronic_load'', PInt 380)])]),
            (''daily_stats'', PDict [])]"

text \<open>The empty dataset of the test suite.\<close>

definition empty_data :: pyval where
  "empty_data =
     PDict [(''recent_activities'', PList []), (''recovery_indicators'', PList []),
            (''physiological_markers'', PDict []), (''training_status'', PDict []),
            (''daily_stats'', PDict [])]"

text \<open>
  Two activities with distance, duration and heart rate in the week of 2025-11-03, a third
  one with none of them, and recovery entries on the first and the last day of that
  week, on the day after it, and in the week before (with a resting heart rate of 0).
\<close>

definition sleep_entry :: "string \<Rightarrow> pyval \<Rightarrow> pyval \<Rightarrow> pyval" where
  "sleep_entry day rhr total_sleep =
     PDict [(''date'', PStr day),
            (''sleep'', PDict [(''duration'', PDict [(''total'', total_sleep)]),
                              (''resting_heart_rate'', rhr)])]"

definition week_data :: pyval where
  "week_data =
     PDict [(''recent_activities'',
       PList [run ''2025-11-04''
                (PDict [(''distance'', PInt 10000), (''duration'', PInt 3600),
                        (''average_hr'', PInt 140), (''activity_training_load'', PInt 85)]),
              ride ''2025-11-06T18:00:00''
                (PDict [(''distance'', PFloat 20000), (''duration'', PStr ''5400''),
                        (''average_hr'', PInt 150), (''activity_training_load'', PInt 120)]),
              run ''2025-11-08'' (PDict [(''average_hr'', PStr ''n/a'')])]),
       (''recovery_indicators'',
       PList [sleep_entry ''2025-10-28'' (PInt 0) (PFloat (13 / 2)),
              sleep_entry ''2025-11-03'' (PInt 50) (PInt 7),
              sleep_entry ''2025-11-09'' (PInt 60) (PInt 8),
              sleep_entry ''2025-11-10'' (PInt 90) (PInt 3)])]"

text \<open>
  A trends window of 35 days walks the weeks of 2025-10-20 (ordinal 739544), 2025-10-27
  and 2025-11-03: training loads of 0 and none in the first, of 0.04 in the second, of
  12.34 twice in the third.
\<close>

definition load_data :: pyval where
  "load_data =
     PDict [(''recent_activities'',
       PList [run ''2025-10-22'' (PDict [(''activity_training_load'', PInt 0)]),
              ride ''2025-10-23'' (PDict []),
              run ''2025-10-29'' (PDict [(''activity_training_load'', PFloat (1 / 25))]),
              run ''2025-11-04'' (PDict [(''activity_training_load'', PFloat (617 / 50))]),
              ride ''2025-11-05'' (PDict [(''activity_training_load'', PFloat (617 / 50))])])]"

text \<open>A recovery entry with a negative resting heart rate and a negative sleep total.\<close>

definition negative_data :: pyval where
  "negative_data =
     PDict [(''recovery_indicators'',
       PList [sleep_entry ''2025-11-04'' (PInt (- 5)) (PInt (- 1))])]"

text \<open>A recovery entry of the week of 2025-11-03 whose sleep block is null.\<close>

definition sleep_null_data :: pyval where
  "sleep_null_data =
     PDict [(''recent_activities'', PList []),
            (''recovery_indicators'',
               PList [PDict [(''date'', PStr ''2025-11-04''), (''sleep'', PNone)]]),
            (''physiological_markers'', PDict []), (''training_status'', PDict []),
            (''daily_stats'', PDict [])]"

text \<open>
  A recovery entry of the week of 2025-10-27 with a resting heart rate of 48.26 and a
  sleep total of 7.126, and one of the week of 2025-11-03 whose resting heart rate is
  the string \<^verbatim>\<open>n/a\<close> and whose sleep total is 7.
\<close>

definition rejected_rhr_data :: pyval where
  "rejected_rhr_data =
     PDict [(''recovery_indicators'',
       PList [sleep_entry ''2025-10-28'' (PFloat (2413 / 50)) (PFloat (3563 / 500)),
              sleep_entry ''2025-11-04'' (PStr ''n/a'') (PInt 7)])]"

text \<open>An activity of the week of 2025-11-03 whose distance is the int \<open>10 ^ 400\<close>.\<close>

definition huge_distance_data :: pyval where
  "huge_distance_data =
     PDict [(''recent_activities'',
       PList [run ''2025-11-04'' (PDict [(''distance'', PInt (10 ^ 400))])])]"


section \<open>Iteration and dates\<close>

text \<open>
  What a loop that returns has done, when a loop returns, and the arithmetic of week
  starts: the Mondays from one Monday up to a bound are the steps of seven days below
  the bound.
\<close>

lemma for_each_append:
  "for_each body (xs @ ys) s =
     (case for_each body xs s of Inl e \<Rightarrow> Inl e | Inr s' \<Rightarrow> for_each body ys s')"
  by (induction xs arbitrary: s) (auto split: sum.splits)

lemma for_each_returns:
  assumes "\<And>x s. x \<in> set xs \<Longrightarrow> \<exists>s'. body x s = Inr s'"
  shows "\<exists>s'. for_each body xs s = Inr s'"
  using assms
proof (induction xs arbitrary: s)
  case Nil
  then show ?case by simp
next
  case (Cons x xs)
  from Cons.prems[of x s] obtain s1 where s1: "body x s = Inr s1" by auto
  from Cons.IH[of s1] Cons.prems obtain s2 where "for_each body xs s1 = Inr s2"
    by (meson list.set_intros(2))
  with s1 show ?case by simp
qed

lemma date_minus_days_Inr:
  "date_minus_days d n = Inr x \<Longrightarrow> x = d - n \<and> valid_date x"
  by (auto simp: date_minus_days_def timedelta_def date_add_def split: if_splits)

lemma date_plus_days_Inr:
  "date_plus_days d n = Inr x \<Longrightarrow> x = d + n \<and> valid_date x"
  by (auto simp: date_plus_days_def timedelta_def date_add_def split: if_splits)

lemma get_week_start_Inr:
  "get_week_start d = Inr w \<Longrightarrow> w = monday_on_or_before d \<and> valid_date w"
  by (auto simp: get_week_start_def monday_on_or_before_def dest: date_minus_days_Inr)

lemma weekday_range: "0 \<le> weekday d \<and> weekday d < 7"
  by (simp add: weekday_def)

lemma weekday_monday: "weekday (monday_on_or_before d) = 0"
  unfolding weekday_def monday_on_or_before_def by presburger

lemma monday_le: "monday_on_or_before d \<le> d \<and> d < monday_on_or_before d + 7"
  unfolding weekday_def monday_on_or_before_def by presburger

lemma monday_valid: "valid_date d \<Longrightarrow> valid_date (monday_on_or_before d)"
  unfolding valid_date_def MINORD_def MAXORD_def weekday_def monday_on_or_before_def
  by presburger

lemma get_week_start_valid:
  "valid_date d \<Longrightarrow> get_week_start d = Inr (monday_on_or_before d)"
  using monday_valid[of d] weekday_range[of d]
  by (simp add: get_week_start_def date_minus_days_def timedelta_def date_add_def
      monday_on_or_before_def)

lemma monday_mono: "d \<le> d' \<Longrightarrow> monday_on_or_before d \<le> monday_on_or_before d'"
  unfolding monday_on_or_before_def weekday_def by presburger

lemma mondays_between:
  assumes "weekday W = 0"
  shows "(\<lambda>k. W + 7 * int k) ` {0..<nat ((e - W + 6) div 7)}
           = {w. W \<le> w \<and> w < e \<and> weekday w = 0}"
proof (intro set_eqI iffI)
  fix w assume "w \<in> (\<lambda>k. W + 7 * int k) ` {0..<nat ((e - W + 6) div 7)}"
  then obtain k where k: "w = W + 7 * int k" "k < nat ((e - W + 6) div 7)" by auto
  from k(2) have "int k < (e - W + 6) div 7" by simp
  then have "7 * int k < e - W" by presburger
  with k(1) assms show "w \<in> {w. W \<le> w \<and> w < e \<and> weekday w = 0}"
    unfolding weekday_def by simp presburger
next
  fix w assume "w \<in> {w. W \<le> w \<and> w < e \<and> weekday w = 0}"
  then have w: "W \<le> w" "w < e" "weekday w = 0" by auto
  define k where "k = nat ((w - W) div 7)"
  from w(1,3) assms have "w = W + 7 * ((w - W) div 7)"
    unfolding weekday_def by presburger
  with w(1) have 1: "w = W + 7 * int k" unfolding k_def by simp
  from w(1,2) have "(w - W) div 7 < (e - W + 6) div 7" by presburger
  with w(1) have 2: "k < nat ((e - W + 6) div 7)" unfolding k_def by simp
  from 1 2 show "w \<in> (\<lambda>k. W + 7 * int k) ` {0..<nat ((e - W + 6) div 7)}" by auto
qed

lemma mean_Nil: "mean [] = None"
  by (simp add: mean_def)

lemma mean_None: "mean xs = None \<longleftrightarrow> xs = []"
  by (simp add: mean_def)

lemma mean_positive:
  assumes "\<forall>x \<in> set xs. 0 < x"
  shows "positive_if_present (mean xs)"
proof (cases xs)
  case Nil
  then show ?thesis by (simp add: mean_def positive_if_present_def)
next
  case (Cons a as)
  have "0 < sum_list xs" unfolding Cons
    using assms[unfolded Cons] by (simp add: add_pos_nonneg sum_list_nonneg less_imp_le)
  with Cons show ?thesis by (simp add: mean_def positive_if_present_def)
qed


section \<open>Values\<close>

lemma py_get_PDict: "py_get (PDict kvs) k d = Inr (dict_get kvs k d)"
  by simp

lemma dict_get_Cons:
  "dict_get ((k, v) # kvs) k' d = (if k = k' then v else dict_get kvs k' d)"
  by (simp add: dict_get_def)

lemma dict_get_del_key:
  "dict_get (del_key k kvs) k' d = (if k = k' then d else dict_get kvs k' d)"
  by (induction kvs) (auto simp: dict_get_def del_key_def)

lemma float_values_int: "0 \<le> i \<Longrightarrow> r \<in> set (float_values B (PInt i)) \<Longrightarrow> 0 < r"
  unfolding float_values_def by (cases "i = 0") (auto split: if_splits)

lemma float_values_float: "0 \<le> x \<Longrightarrow> r \<in> set (float_values B (PFloat x)) \<Longrightarrow> 0 < r"
  unfolding float_values_def by (cases "x = 0") simp_all

lemma float_values_positive:
  assumes "nonneg_number v" and "r \<in> set (float_values B v)"
  shows "0 < r"
proof (cases v)
  case PNone
  with assms(2) show ?thesis by (simp add: float_values_def)
next
  case (PInt i)
  with assms show ?thesis using float_values_int[of i r B] by simp
next
  case (PFloat x)
  with assms show ?thesis using float_values_float[of x r B] by simp
qed (use assms(1) in simp_all)

lemma py_round_nonneg: "0 \<le> x \<Longrightarrow> 0 \<le> py_round x n"
  unfolding py_round_def round_half_even_def Let_def by (simp add: zero_le_floor)

lemma round_if_nonneg: "positive_if_present x \<Longrightarrow> nonneg_if_present (round_if x n)"
  by (cases x) (auto simp: positive_if_present_def nonneg_if_present_def round_if_def
      intro: py_round_nonneg)

lemma round_half_even_near: "\<bar>of_int (round_half_even z) - z\<bar> \<le> 1 / 2"
proof -
  have f: "of_int \<lfloor>z\<rfloor> \<le> z" "z < of_int \<lfloor>z\<rfloor> + 1" by linarith+
  consider (lo) "z - of_int \<lfloor>z\<rfloor> < 1 / 2" | (hi) "z - of_int \<lfloor>z\<rfloor> > 1 / 2"
    | (tie) "z - of_int \<lfloor>z\<rfloor> = 1 / 2" by linarith
  then show ?thesis
  proof cases
    case lo
    then have "round_half_even z = \<lfloor>z\<rfloor>" by (simp add: round_half_even_def Let_def)
    with f lo show ?thesis by linarith
  next
    case hi
    then have "round_half_even z = \<lfloor>z\<rfloor> + 1" by (simp add: round_half_even_def Let_def)
    with f hi show ?thesis by simp
  next
    case tie
    then have "round_half_even z = \<lfloor>z\<rfloor> \<or> round_half_even z = \<lfloor>z\<rfloor> + 1"
      by (simp add: round_half_even_def Let_def)
    with f tie show ?thesis by (elim disjE) simp_all
  qed
qed

lemma rounds_to_py_round: "rounds_to x n (py_round x n)"
proof -
  have p: "(10::real) ^ n > 0" by simp
  have m: "py_round x n * 10 ^ n = of_int (round_half_even (x * 10 ^ n))"
    unfolding py_round_def by simp
  have "\<bar>py_round x n - x\<bar> * 10 ^ n = \<bar>(py_round x n - x) * 10 ^ n\<bar>"
    by (simp add: abs_mult)
  also have "\<dots> = \<bar>py_round x n * 10 ^ n - x * 10 ^ n\<bar>"
    by (simp only: left_diff_distrib)
  also have "\<dots> \<le> 1 / 2" unfolding m by (rule round_half_even_near)
  finally show ?thesis unfolding rounds_to_def m by simp
qed

lemma rounds_if_round_if: "rounds_if x n (round_if x n)"
  by (cases x) (simp_all add: rounds_if_def round_if_def rounds_to_py_round)

lemma round_if_positive:
  "positive_if_present x \<Longrightarrow> round_if x n = None \<longleftrightarrow> x = None"
  by (cases x) (simp_all add: round_if_def positive_if_present_def)


section \<open>The orchestrator, step by step\<close>

lemma split_loop:
  "for_each (split_step B rc tc) acts acc = Inr res \<Longrightarrow>
     fst res = fst acc @ filter (\<lambda>a. case date_of B a of None \<Rightarrow> False | Some d \<Rightarrow> d > rc) acts
     \<and> snd res = snd acc @ filter (\<lambda>a. case date_of B a of None \<Rightarrow> False | Some d \<Rightarrow> d \<le> rc \<and> d > tc) acts"
proof (induction acts arbitrary: acc)
  case Nil
  then show ?case by simp
next
  case (Cons a acts)
  from Cons.prems obtain acc1 where
    s1: "split_step B rc tc a acc = Inr acc1" and
    s2: "for_each (split_step B rc tc) acts acc1 = Inr res"
    by (auto split: sum.splits)
  from s1 have
    "fst acc1 = fst acc @ filter (\<lambda>a. case date_of B a of None \<Rightarrow> False | Some d \<Rightarrow> d > rc) [a]
     \<and> snd acc1 = snd acc @ filter (\<lambda>a. case date_of B a of None \<Rightarrow> False | Some d \<Rightarrow> d \<le> rc \<and> d > tc) [a]"
    by (auto simp: split_step_def date_of_def split: sum.splits option.splits if_splits)
  with Cons.IH[OF s2] show ?case by simp
qed

lemma prepare_agent_context_Inr:
  assumes "prepare_agent_context B gd ad rw tw = Inr ctx"
  shows "\<exists>historical.
     valid_date (analysis_day B ad - rw) \<and> valid_date (analysis_day B ad - tw)
     \<and> split_activities B (analysis_day B ad - rw) (analysis_day B ad - tw) (input_activities gd)
         = Inr (recent_activities ctx, historical)
     \<and> aggregate_by_week B historical gd (analysis_day B ad - tw) (analysis_day B ad - rw)
         = Inr (weekly_trends ctx)
     \<and> extract_current_metrics gd = Inr (current_metrics ctx)
     \<and> preparation_date ctx = analysis_day B ad
     \<and> recent_window_days ctx = rw \<and> trends_window_days ctx = tw"
  using assms
  unfolding prepare_agent_context_def Let_def analysis_day_def input_activities_def
  by (auto split: sum.splits dest!: date_minus_days_Inr)

lemma historical_bucket_dates:
  assumes "a \<in> set (historical_bucket B gd rc tc)"
  shows "\<exists>d. date_of B a = Some d \<and> tc < d \<and> d \<le> rc"
  using assms unfolding historical_bucket_def by (auto split: option.splits)

lemma extract_current_metrics_shape:
  assumes "extract_current_metrics gd = Inr m"
  shows "\<exists>g p t s a.
        gd = PDict g
        \<and> dict_get g ''physiological_markers'' (PDict []) = PDict p
        \<and> dict_get g ''training_status'' (PDict []) = PDict t
        \<and> dict_get g ''daily_stats'' (PDict []) = PDict s
        \<and> dict_get t ''acute_training_load'' (PDict []) = PDict a"
proof -
  from assms obtain g where g: "gd = PDict g"
    by (cases gd) (auto simp: extract_current_metrics_def)
  note a = assms[unfolded extract_current_metrics_def g py_get_PDict, simplified]
  from a obtain p where p: "dict_get g ''physiological_markers'' (PDict []) = PDict p"
    by (cases "dict_get g ''physiological_markers'' (PDict [])") simp_all
  from a p obtain t where t: "dict_get g ''training_status'' (PDict []) = PDict t"
    by (cases "dict_get g ''training_status'' (PDict [])") (simp_all add: py_get_PDict)
  from a p t obtain al where al: "dict_get t ''acute_training_load'' (PDict []) = PDict al"
    by (cases "dict_get t ''acute_training_load'' (PDict [])") (simp_all add: py_get_PDict)
  from a p t al obtain s where s: "dict_get g ''daily_stats'' (PDict []) = PDict s"
    by (cases "dict_get g ''daily_stats'' (PDict [])") (simp_all add: py_get_PDict)
  from g p t al s show ?thesis by blast
qed

lemma extract_current_metrics_value:
  assumes "gd = PDict g"
    and "dict_get g ''physiological_markers'' (PDict []) = PDict p"
    and "dict_get g ''training_status'' (PDict []) = PDict t"
    and "dict_get g ''daily_stats'' (PDict []) = PDict s"
    and "dict_get t ''acute_training_load'' (PDict []) = PDict a"
  shows "extract_current_metrics gd = Inr (PDict
            [(''resting_heart_rate'', dict_get p ''resting_heart_rate'' PNone),
             (''vo2_max'', dict_get p ''vo2_max'' PNone),
             (''hrv'', dict_get p ''hrv'' PNone),
             (''training_load'',
                PDict [(''acute'', dict_get a ''acute_load'' PNone),
                       (''chronic'', dict_get a ''chronic_load'' PNone),
                       (''acwr'', dict_get a ''acwr'' PNone)]),
             (''current_stress'', dict_get s ''average_stress_level'' PNone),
             (''current_rhr'', dict_get s ''resting_heart_rate'' PNone)])"
  unfolding extract_current_metrics_def using assms by (simp add: py_get_PDict)


section \<open>One week: what the accumulators hold\<close>

lemma aggregate_step_shape:
  assumes "aggregate_step B a st = Inr st'"
  shows "\<exists>akvs summary el mh. a = PDict akvs
           \<and> dict_get akvs ''summary'' (PDict []) = PDict summary
           \<and> hashable (dict_get akvs ''activity_type'' (PStr ''unknown''))
           \<and> safe_float B (dict_get summary ''distance'' (PInt 0)) 0 = Inr (distance_m_of B a)
           \<and> safe_float B (dict_get summary ''duration'' (PInt 0)) 0 = Inr (duration_s_of B a)
           \<and> safe_float B (dict_get summary ''elevation_gain'' (PInt 0)) 0 = Inr el
           \<and> safe_float B (dict_get summary ''activity_training_load'' (PInt 0)) 0
               = Inr (training_load_of B a)
           \<and> safe_float B (dict_get summary ''average_hr'' PNone) 0 = Inr (average_hr_of B a)
           \<and> safe_int B (dict_get summary ''max_hr'' PNone) 0 = Inr mh"
proof -
  from assms obtain akvs where a: "a = PDict akvs"
    unfolding aggregate_step_def by (cases a) simp_all
  from assms obtain summary where s: "dict_get akvs ''summary'' (PDict []) = PDict summary"
    unfolding aggregate_step_def a Let_def
    by (cases "dict_get akvs ''summary'' (PDict [])") auto
  have so: "summary_of a = summary" by (simp add: summary_of_def a s)
  note st0 = assms[unfolded aggregate_step_def a pyval.case s Let_def]
  from st0 obtain dm where dm: "safe_float B (dict_get summary ''distance'' (PInt 0)) 0 = Inr dm"
    by (cases "safe_float B (dict_get summary ''distance'' (PInt 0)) 0") simp_all
  note st1 = st0[unfolded dm sum.case]
  from st1 obtain ds where ds: "safe_float B (dict_get summary ''duration'' (PInt 0)) 0 = Inr ds"
    by (cases "safe_float B (dict_get summary ''duration'' (PInt 0)) 0") simp_all
  note st2 = st1[unfolded ds sum.case]
  from st2 obtain el where
    el: "safe_float B (dict_get summary ''elevation_gain'' (PInt 0)) 0 = Inr el"
    by (cases "safe_float B (dict_get summary ''elevation_gain'' (PInt 0)) 0") simp_all
  note st3 = st2[unfolded el sum.case]
  from st3 obtain tl where
    tl: "safe_float B (dict_get summary ''activity_training_load'' (PInt 0)) 0 = Inr tl"
    by (cases "safe_float B (dict_get summary ''activity_training_load'' (PInt 0)) 0") simp_all
  note st4 = st3[unfolded tl sum.case]
  have h: "hashable (dict_get akvs ''activity_type'' (PStr ''unknown''))"
  proof (rule ccontr)
    assume n: "\<not> hashable (dict_get akvs ''activity_type'' (PStr ''unknown''))"
    from st4 show False unfolding if_P[OF n] by simp
  qed
  from h have nn: "\<not> \<not> hashable (dict_get akvs ''activity_type'' (PStr ''unknown''))" by simp
  note st5 = st4[unfolded if_not_P[OF nn]]
  from st5 obtain ah where ah: "safe_float B (dict_get summary ''average_hr'' PNone) 0 = Inr ah"
    by (cases "safe_float B (dict_get summary ''average_hr'' PNone) 0") simp_all
  note st6 = st5[unfolded ah sum.case]
  from st6 obtain mh where mh: "safe_int B (dict_get summary ''max_hr'' PNone) 0 = Inr mh"
    by (cases "safe_int B (dict_get summary ''max_hr'' PNone) 0") simp_all
  have "distance_m_of B a = dm" "duration_s_of B a = ds" "training_load_of B a = tl"
    "average_hr_of B a = ah"
    by (simp_all add: distance_m_of_def duration_s_of_def training_load_of_def average_hr_of_def
        coerced_def so dm ds tl ah)
  with a s h dm ds el tl ah mh show ?thesis by blast
qed

lemma aggregate_step_Inr:
  assumes "aggregate_step B a st = Inr st'"
  shows "acc_total_distance st' = acc_total_distance st + distance_m_of B a / 1000"
    and "acc_total_duration st' = acc_total_duration st + duration_s_of B a / 3600"
    and "acc_total_training_load st' = acc_total_training_load st + training_load_of B a"
    and "acc_heart_rates st'
           = acc_heart_rates st @ filter (\<lambda>h. 0 < h) [average_hr_of B a]"
    and "acc_max_intensity_load st'
           = (if training_load_of B a > acc_max_intensity_load st then training_load_of B a
              else acc_max_intensity_load st)"
    and "acc_highest_intensity_type st'
           = (if training_load_of B a > acc_max_intensity_load st then activity_type_of a
              else acc_highest_intensity_type st)"
proof -
  from aggregate_step_shape[OF assms] obtain akvs summary el mh where
    a: "a = PDict akvs" and s: "dict_get akvs ''summary'' (PDict []) = PDict summary" and
    h: "hashable (dict_get akvs ''activity_type'' (PStr ''unknown''))" and
    v: "safe_float B (dict_get summary ''distance'' (PInt 0)) 0 = Inr (distance_m_of B a)"
       "safe_float B (dict_get summary ''duration'' (PInt 0)) 0 = Inr (duration_s_of B a)"
       "safe_float B (dict_get summary ''elevation_gain'' (PInt 0)) 0 = Inr el"
       "safe_float B (dict_get summary ''activity_training_load'' (PInt 0)) 0
          = Inr (training_load_of B a)"
       "safe_float B (dict_get summary ''average_hr'' PNone) 0 = Inr (average_hr_of B a)"
       "safe_int B (dict_get summary ''max_hr'' PNone) 0 = Inr mh"
    by blast
  from assms have p: "st' = projr (aggregate_step B (PDict akvs) st)" by (simp add: a)
  note u = aggregate_step_def pyval.case s Let_def v[unfolded a] sum.case
  show "acc_total_distance st' = acc_total_distance st + distance_m_of B a / 1000"
    unfolding p a u by (simp add: h)
  show "acc_total_duration st' = acc_total_duration st + duration_s_of B a / 3600"
    unfolding p a u by (simp add: h)
  show "acc_total_training_load st' = acc_total_training_load st + training_load_of B a"
    unfolding p a u by (simp add: h)
  show "acc_heart_rates st'
           = acc_heart_rates st @ filter (\<lambda>h. 0 < h) [average_hr_of B a]"
    unfolding p a u by (simp add: h)
  show "acc_max_intensity_load st'
           = (if training_load_of B a > acc_max_intensity_load st then training_load_of B a
              else acc_max_intensity_load st)"
    unfolding p a u by (simp add: h)
  show "acc_highest_intensity_type st'
           = (if training_load_of B a > acc_max_intensity_load st then activity_type_of a
              else acc_highest_intensity_type st)"
    unfolding p a u activity_type_of_def by (simp add: h)
qed

lemma aggregate_loop_sums:
  "for_each (aggregate_step B) acts st = Inr st' \<Longrightarrow>
     acc_total_distance st'
       = acc_total_distance st + sum_list (map (\<lambda>a. distance_m_of B a / 1000) acts)
     \<and> acc_total_duration st'
       = acc_total_duration st + sum_list (map (\<lambda>a. duration_s_of B a / 3600) acts)
     \<and> acc_total_training_load st'
       = acc_total_training_load st + sum_list (map (training_load_of B) acts)
     \<and> acc_heart_rates st'
       = acc_heart_rates st @ filter (\<lambda>h. 0 < h) (map (average_hr_of B) acts)"
proof (induction acts arbitrary: st)
  case Nil
  then show ?case by simp
next
  case (Cons a acts)
  from Cons.prems obtain st1 where
    s1: "aggregate_step B a st = Inr st1" and
    s2: "for_each (aggregate_step B) acts st1 = Inr st'"
    by (auto split: sum.splits)
  from Cons.IH[OF s2] aggregate_step_Inr(1-4)[OF s1] show ?case by simp
qed

lemma aggregate_loop_highest:
  "for_each (aggregate_step B) acts st = Inr st' \<Longrightarrow>
     (case first_max (training_load_of B) acts of
        None \<Rightarrow>
          acc_highest_intensity_type st' = acc_highest_intensity_type st
          \<and> acc_max_intensity_load st' = acc_max_intensity_load st
      | Some a \<Rightarrow>
          if training_load_of B a > acc_max_intensity_load st
          then acc_highest_intensity_type st' = activity_type_of a
               \<and> acc_max_intensity_load st' = training_load_of B a
          else acc_highest_intensity_type st' = acc_highest_intensity_type st
               \<and> acc_max_intensity_load st' = acc_max_intensity_load st)"
proof (induction acts arbitrary: st)
  case Nil
  then show ?case by simp
next
  case (Cons a acts)
  from Cons.prems obtain st1 where
    s1: "aggregate_step B a st = Inr st1" and
    s2: "for_each (aggregate_step B) acts st1 = Inr st'"
    by (auto split: sum.splits)
  note ih = Cons.IH[OF s2]
  note st = aggregate_step_Inr(5,6)[OF s1]
  show ?case
  proof (cases "first_max (training_load_of B) acts")
    case None
    with ih st show ?thesis by simp
  next
    case (Some y)
    with ih st show ?thesis by (auto split: if_splits)
  qed
qed

lemma first_max_first:
  "first_max f xs = Some a \<Longrightarrow>
     \<exists>pre post. xs = pre @ a # post \<and> (\<forall>x \<in> set pre. f x < f a) \<and> (\<forall>x \<in> set post. f x \<le> f a)"
proof (induction xs arbitrary: a)
  case Nil
  then show ?case by simp
next
  case (Cons x xs)
  show ?case
  proof (cases "first_max f xs")
    case None
    then have "xs = []" by (cases xs) (auto split: option.splits if_splits)
    with Cons.prems have "x # xs = [] @ a # []" by simp
    then show ?thesis by (metis empty_iff list.set(1))
  next
    case (Some y)
    from Cons.IH[OF Some] obtain pre post where
      y: "xs = pre @ y # post" "\<forall>x \<in> set pre. f x < f y" "\<forall>x \<in> set post. f x \<le> f y"
      by blast
    show ?thesis
    proof (cases "f y > f x")
      case True
      with Cons.prems Some have "a = y" by simp
      with y True have "x # xs = (x # pre) @ a # post \<and> (\<forall>z \<in> set (x # pre). f z < f a)
          \<and> (\<forall>z \<in> set post. f z \<le> f a)" by simp
      then show ?thesis by blast
    next
      case False
      with Cons.prems Some have ax: "a = x" by simp
      have "\<forall>z \<in> set xs. f z \<le> f x"
        using y False by (fastforce simp: not_less)
      with ax have "x # xs = [] @ a # xs \<and> (\<forall>z \<in> set []. f z < f a)
          \<and> (\<forall>z \<in> set xs. f z \<le> f a)" by simp
      then show ?thesis by blast
    qed
  qed
qed


section \<open>The recovery join\<close>

lemma recovery_step_shape:
  assumes "recovery_step B ws we e acc = Inr acc'"
  shows "\<exists>ekvs. e = PDict ekvs"
  using assms unfolding recovery_step_def by (cases e) simp_all

lemma recovery_step_out:
  assumes "\<not> in_range B ws we e"
    and "recovery_step B ws we e acc = Inr acc'"
  shows "acc' = acc"
proof -
  from recovery_step_shape[OF assms(2)] obtain ekvs where e: "e = PDict ekvs" by blast
  show ?thesis
  proof (cases "dict_get ekvs ''date'' (PStr '''')")
    case (PStr s)
    show ?thesis
    proof (cases "fromisoformat B s")
      case None
      with assms(2) PStr show ?thesis by (simp add: recovery_step_def e)
    next
      case (Some d)
      with assms(1) PStr have "\<not> (ws \<le> d \<and> d \<le> we)"
        by (simp add: in_range_def entry_date_def e)
      with assms(2) PStr Some show ?thesis by (simp add: recovery_step_def e)
    qed
  qed (use assms(2) in \<open>simp_all add: recovery_step_def e\<close>)
qed

lemma recovery_step_in:
  assumes "in_range B ws we e"
    and "recovery_step B ws we e acc = Inr acc'"
  shows "fst acc' = fst acc @ float_values B (rhr_of e)"
    and "snd acc' = snd acc @ (if rhr_rejected B e then [] else float_values B (total_sleep_of e))"
proof -
  from recovery_step_shape[OF assms(2)] obtain ekvs where e: "e = PDict ekvs" by blast
  from assms(1) obtain s d where
    s: "dict_get ekvs ''date'' (PStr '''') = PStr s" and
    d: "fromisoformat B s = Some d" "ws \<le> d" "d \<le> we"
    unfolding in_range_def entry_date_def e
    by (auto split: pyval.splits option.splits)
  from assms(2) obtain si where si: "dict_get ekvs ''sleep'' (PDict []) = PDict si"
    unfolding recovery_step_def e
    by (cases "dict_get ekvs ''sleep'' (PDict [])") (auto simp: s d)
  have sl: "sleep_of e = si" by (simp add: sleep_of_def e si)
  let ?rhr = "dict_get si ''resting_heart_rate'' PNone"
  have r: "rhr_of e = ?rhr" by (simp add: rhr_of_def sl)
  note defs = recovery_step_def e s d si Let_def
  consider (rej) "truthy ?rhr" "\<exists>x. py_float B ?rhr = Inl x"
    | (acc) "truthy ?rhr \<longrightarrow> (\<exists>r0. py_float B ?rhr = Inr r0)"
    by (cases "py_float B ?rhr") auto
  then have "fst acc' = fst acc @ float_values B (rhr_of e)
      \<and> snd acc' = snd acc @ (if rhr_rejected B e then [] else float_values B (total_sleep_of e))"
  proof cases
    case rej
    then obtain x where x: "py_float B ?rhr = Inl x" by blast
    from assms(2) rej(1) x have "acc' = acc" by (simp add: defs split: if_splits)
    with rej(1) x show ?thesis by (simp add: float_values_def rhr_rejected_def r)
  next
    case acc
    have nr: "\<not> rhr_rejected B e" using acc by (auto simp: rhr_rejected_def r)
    have "\<exists>di. dict_get si ''duration'' (PDict []) = PDict di"
      using assms(2) acc
      by (cases "dict_get si ''duration'' (PDict [])") (auto simp: defs split: if_splits)
    then obtain di where di: "dict_get si ''duration'' (PDict []) = PDict di" by blast
    have ts: "total_sleep_of e = dict_get di ''total'' PNone"
      by (simp add: total_sleep_of_def sl di)
    have f: "fst acc' = fst acc @ float_values B ?rhr"
      using assms(2) acc
      by (auto simp: defs di float_values_def split: if_splits sum.splits)
    have g: "snd acc' = snd acc @ float_values B (dict_get di ''total'' PNone)"
      using assms(2) acc
      by (auto simp: defs di float_values_def split: if_splits sum.splits)
    from f g show ?thesis by (simp add: r nr ts)
  qed
  then show "fst acc' = fst acc @ float_values B (rhr_of e)"
    and "snd acc' = snd acc @ (if rhr_rejected B e then [] else float_values B (total_sleep_of e))"
    by simp_all
qed

lemma recovery_loop:
  "for_each (recovery_step B ws we) es acc = Inr acc' \<Longrightarrow>
     fst acc' = fst acc @ week_rhrs B ws we es \<and> snd acc' = snd acc @ week_sleeps B ws we es"
proof (induction es arbitrary: acc)
  case Nil
  then show ?case by (simp add: week_rhrs_def week_sleeps_def)
next
  case (Cons e es)
  from Cons.prems obtain acc1 where
    s1: "recovery_step B ws we e acc = Inr acc1" and
    s2: "for_each (recovery_step B ws we) es acc1 = Inr acc'"
    by (auto split: sum.splits)
  note ih = Cons.IH[OF s2]
  show ?case
  proof (cases "in_range B ws we e")
    case True
    from recovery_step_in[OF True s1] ih True show ?thesis
      by (simp add: week_rhrs_def week_sleeps_def)
  next
    case False
    from recovery_step_out[OF False s1] ih False show ?thesis
      by (simp add: week_rhrs_def week_sleeps_def)
  qed
qed

lemma extract_weekly_recovery_metrics_Inr:
  assumes "extract_weekly_recovery_metrics B gd ws we = Inr r"
  shows "fst r = mean (week_rhrs B ws we (recovery_entries gd))"
    and "snd r = mean (week_sleeps B ws we (recovery_entries gd))"
proof -
  from assms obtain v es acc where
    v: "py_get gd ''recovery_indicators'' (PList []) = Inr v" and
    es: "py_iter v = Inr es" and
    l: "for_each (recovery_step B ws we) es ([], []) = Inr acc" and
    r: "r = (mean (fst acc), mean (snd acc))"
    unfolding extract_weekly_recovery_metrics_def by (auto split: sum.splits)
  have re: "recovery_entries gd = es" by (simp add: recovery_entries_def v es)
  from recovery_loop[OF l] r re
  show "fst r = mean (week_rhrs B ws we (recovery_entries gd))"
    and "snd r = mean (week_sleeps B ws we (recovery_entries gd))" by simp_all
qed

lemma in_range_eq:
  "in_range B ws we
     = (\<lambda>e. case entry_date B e of None \<Rightarrow> False | Some d \<Rightarrow> ws \<le> d \<and> d \<le> we)"
  by (rule ext) (simp add: in_range_def)

lemma recovery_step_without_rhr:
  assumes "is_zero (rhr_of e)"
  shows "recovery_step B ws we e acc = recovery_step B ws we (without_rhr e) acc"
proof (cases e)
  case (PDict ekvs)
  from assms obtain si where si: "dict_get ekvs ''sleep'' (PDict []) = PDict si"
    unfolding rhr_of_def sleep_of_def PDict is_zero_def
    by (cases "dict_get ekvs ''sleep'' (PDict [])") (auto simp: dict_get_def)
  have sl: "sleep_of e = si" by (simp add: sleep_of_def PDict si)
  from assms have z: "\<not> truthy (dict_get si ''resting_heart_rate'' PNone)"
    unfolding rhr_of_def sl is_zero_def by auto
  show ?thesis
    unfolding without_rhr_def PDict pyval.case sl[unfolded PDict] recovery_step_def
    by (simp add: dict_get_Cons dict_get_del_key si z Let_def
        cong: if_cong option.case_cong pyval.case_cong sum.case_cong)
qed (simp_all add: without_rhr_def)

lemma recovery_step_without_total_sleep:
  assumes "is_zero (total_sleep_of e)"
  shows "recovery_step B ws we e acc = recovery_step B ws we (without_total_sleep e) acc"
proof -
  from assms obtain di where di: "dict_get (sleep_of e) ''duration'' (PDict []) = PDict di"
    unfolding total_sleep_of_def is_zero_def
    by (cases "dict_get (sleep_of e) ''duration'' (PDict [])") auto
  from assms have z: "\<not> truthy (dict_get di ''total'' PNone)"
    unfolding total_sleep_of_def di is_zero_def by auto
  from assms have ne: "sleep_of e \<noteq> []"
    unfolding total_sleep_of_def is_zero_def by (auto simp: dict_get_def)
  then obtain ekvs where e: "e = PDict ekvs"
    by (cases e) (simp_all add: sleep_of_def)
  from ne obtain si where si: "dict_get ekvs ''sleep'' (PDict []) = PDict si"
    unfolding sleep_of_def e by (cases "dict_get ekvs ''sleep'' (PDict [])") simp_all
  have sl: "sleep_of (PDict ekvs) = si" by (simp add: sleep_of_def si)
  note di' = di[unfolded e sl]
  show ?thesis
    unfolding without_total_sleep_def e pyval.case sl di' recovery_step_def
    by (simp add: dict_get_Cons dict_get_del_key si di' z Let_def
        cong: if_cong option.case_cong pyval.case_cong sum.case_cong)
qed

lemma week_rhrs_positive:
  assumes "\<forall>e \<in> set es. nonneg_number (rhr_of e)"
  shows "\<forall>x \<in> set (week_rhrs B ws we es). 0 < x"
  using assms float_values_positive unfolding week_rhrs_def by fastforce

lemma week_sleeps_positive:
  assumes "\<forall>e \<in> set es. nonneg_number (total_sleep_of e)"
  shows "\<forall>x \<in> set (week_sleeps B ws we es). 0 < x"
  using assms float_values_positive unfolding week_sleeps_def
  by (fastforce split: if_splits)


section \<open>The week loop\<close>

lemma create_weekly_aggregate_head:
  "create_weekly_aggregate B w acts gd n = Inr agg \<Longrightarrow>
     week_start agg = w \<and> week_end agg = w + 6 \<and> week_number agg = n
     \<and> total_activities agg = length acts \<and> valid_date (w + 6)"
  unfolding create_weekly_aggregate_def
  by (auto split: sum.splits dest!: date_plus_days_Inr)

lemma create_weekly_aggregate_fields:
  assumes "create_weekly_aggregate B w acts gd n = Inr agg"
  shows "total_distance_km agg = sum_list (map (\<lambda>a. distance_m_of B a / 1000) acts)"
    and "total_duration_hours agg = sum_list (map (\<lambda>a. duration_s_of B a / 3600) acts)"
    and "avg_heart_rate agg = mean (filter (\<lambda>h. 0 < h) (map (average_hr_of B) acts))"
    and "total_training_load agg
           = (if 0 < sum_list (map (training_load_of B) acts)
              then Some (sum_list (map (training_load_of B) acts)) else None)"
    and "highest_intensity_activity agg
           = (case first_max (training_load_of B) acts of
                None \<Rightarrow> PNone
              | Some a \<Rightarrow> if 0 < training_load_of B a then activity_type_of a else PNone)"
    and "avg_resting_hr agg = mean (week_rhrs B w (w + 6) (recovery_entries gd))"
    and "avg_sleep_hours agg = mean (week_sleeps B w (w + 6) (recovery_entries gd))"
proof -
  from assms obtain we st r where
    we: "date_plus_days w 6 = Inr we" and
    st: "for_each (aggregate_step B) acts init_accum = Inr st" and
    r: "extract_weekly_recovery_metrics B gd w we = Inr r"
    unfolding create_weekly_aggregate_def by (auto split: sum.splits)
  from we have we6: "we = w + 6" by (auto dest: date_plus_days_Inr)
  from assms have p: "agg = projr (create_weekly_aggregate B w acts gd n)" by simp
  note sums = aggregate_loop_sums[OF st, unfolded init_accum_def, simplified]
  note hi = aggregate_loop_highest[OF st, unfolded init_accum_def, simplified]
  note rec = extract_weekly_recovery_metrics_Inr[OF r, unfolded we6]
  show "total_distance_km agg = sum_list (map (\<lambda>a. distance_m_of B a / 1000) acts)"
    unfolding p create_weekly_aggregate_def by (simp add: we st r sums)
  show "total_duration_hours agg = sum_list (map (\<lambda>a. duration_s_of B a / 3600) acts)"
    unfolding p create_weekly_aggregate_def by (simp add: we st r sums)
  show "avg_heart_rate agg = mean (filter (\<lambda>h. 0 < h) (map (average_hr_of B) acts))"
    unfolding p create_weekly_aggregate_def by (simp add: we st r sums)
  show "total_training_load agg
           = (if 0 < sum_list (map (training_load_of B) acts)
              then Some (sum_list (map (training_load_of B) acts)) else None)"
    unfolding p create_weekly_aggregate_def by (simp add: we st r sums)
  show "highest_intensity_activity agg
           = (case first_max (training_load_of B) acts of
                None \<Rightarrow> PNone
              | Some a \<Rightarrow> if 0 < training_load_of B a then activity_type_of a else PNone)"
    unfolding p create_weekly_aggregate_def using hi
    by (simp add: we st r split: option.splits if_splits)
  show "avg_resting_hr agg = mean (week_rhrs B w (w + 6) (recovery_entries gd))"
    unfolding p create_weekly_aggregate_def by (simp add: we st r rec)
  show "avg_sleep_hours agg = mean (week_sleeps B w (w + 6) (recovery_entries gd))"
    unfolding p create_weekly_aggregate_def by (simp add: we st r rec)
qed

lemma week_loop_spec:
  "week_loop B gd weeks e cur n aggs = Inr res \<Longrightarrow>
     \<exists>new. res = aggs @ new \<and> length new = nat ((e - cur + 6) div 7)
       \<and> (\<forall>i < length new.
             create_weekly_aggregate B (cur + 7 * int i) (weeks_get weeks (cur + 7 * int i)) gd
               (n + int i) = Inr (new ! i))"
proof (induction B gd weeks e cur n aggs arbitrary: res rule: week_loop.induct)
  case (1 B gd weeks e cur n aggs)
  show ?case
  proof (cases "cur < e")
    case False
    with "1.prems" have "res = aggs" by (simp add: week_loop.simps)
    moreover from False have "nat ((e - cur + 6) div 7) = 0" by simp
    ultimately show ?thesis by simp
  next
    case True
    from "1.prems" True obtain agg nxt where
      c: "create_weekly_aggregate B cur (weeks_get weeks cur) gd n = Inr agg" and
      d: "date_plus_days cur 7 = Inr nxt" and
      r: "week_loop B gd weeks e nxt (n + 1) (aggs @ [agg]) = Inr res"
      by (subst (asm) week_loop.simps) (auto split: sum.splits)
    from d have nxt: "nxt = cur + 7" by (auto dest: date_plus_days_Inr)
    from "1.IH"[OF True c d r] obtain new where
      n1: "res = (aggs @ [agg]) @ new" and
      n2: "length new = nat ((e - nxt + 6) div 7)" and
      n3: "\<forall>i < length new.
             create_weekly_aggregate B (nxt + 7 * int i) (weeks_get weeks (nxt + 7 * int i)) gd
               (n + 1 + int i) = Inr (new ! i)"
      by blast
    have l: "length (agg # new) = nat ((e - cur + 6) div 7)"
      using n2 True unfolding nxt by simp
    have "\<forall>i < length (agg # new).
             create_weekly_aggregate B (cur + 7 * int i) (weeks_get weeks (cur + 7 * int i)) gd
               (n + int i) = Inr ((agg # new) ! i)"
    proof (intro allI impI)
      fix i assume i: "i < length (agg # new)"
      show "create_weekly_aggregate B (cur + 7 * int i) (weeks_get weeks (cur + 7 * int i)) gd
               (n + int i) = Inr ((agg # new) ! i)"
      proof (cases i)
        case 0
        with c show ?thesis by simp
      next
        case (Suc j)
        with i have "j < length new" by simp
        with n3 have "create_weekly_aggregate B (nxt + 7 * int j)
            (weeks_get weeks (nxt + 7 * int j)) gd (n + 1 + int j) = Inr (new ! j)" by blast
        moreover have "nxt + 7 * int j = cur + 7 * int i" "n + 1 + int j = n + int i"
          using Suc nxt by simp_all
        ultimately show ?thesis using Suc by simp
      qed
    qed
    with n1 l show ?thesis by (intro exI[of _ "agg # new"]) simp
  qed
qed

lemma weekly_aggregates_spec:
  assumes "weekly_aggregates B acts gd sd ed = Inr aggs"
  shows "\<exists>weeks.
     for_each (group_step B) acts Map.empty = Inr weeks
     \<and> valid_date (monday_on_or_before sd)
     \<and> length aggs = nat ((ed - monday_on_or_before sd + 6) div 7)
     \<and> (\<forall>i < length aggs.
           create_weekly_aggregate B (monday_on_or_before sd + 7 * int i)
             (weeks_get weeks (monday_on_or_before sd + 7 * int i)) gd (1 + int i)
           = Inr (aggs ! i))"
proof -
  from assms obtain weeks cur res where
    g: "for_each (group_step B) acts Map.empty = Inr weeks" and
    w: "get_week_start sd = Inr cur" and
    l: "week_loop B gd weeks ed cur 1 [] = Inr res" and
    s: "aggs = sort_key week_start res"
    unfolding weekly_aggregates_def by (auto split: sum.splits)
  from w have cur: "cur = monday_on_or_before sd" and v: "valid_date (monday_on_or_before sd)"
    by (auto dest: get_week_start_Inr)
  from week_loop_spec[OF l] have
    len: "length res = nat ((ed - cur + 6) div 7)" and
    el: "\<forall>i < length res.
             create_weekly_aggregate B (cur + 7 * int i) (weeks_get weeks (cur + 7 * int i)) gd
               (1 + int i) = Inr (res ! i)"
    by auto
  have ws: "map week_start res = map (\<lambda>i. cur + 7 * int i) [0..<length res]"
  proof (rule nth_equalityI)
    show "length (map week_start res) = length (map (\<lambda>i. cur + 7 * int i) [0..<length res])"
      by simp
  next
    fix i assume "i < length (map week_start res)"
    then have i: "i < length res" by simp
    with el have "create_weekly_aggregate B (cur + 7 * int i)
        (weeks_get weeks (cur + 7 * int i)) gd (1 + int i) = Inr (res ! i)" by blast
    from create_weekly_aggregate_head[OF this] i
    show "map week_start res ! i = map (\<lambda>i. cur + 7 * int i) [0..<length res] ! i" by simp
  qed
  have "sorted (map week_start res)"
    unfolding ws by (simp add: sorted_iff_nth_mono)
  then have "sort_key week_start res = res" by (rule sort_key_id_if_sorted)
  with s have "aggs = res" by simp
  with g v len el show ?thesis unfolding cur by blast
qed

lemma weekly_aggregates_starts:
  assumes "weekly_aggregates B acts gd sd ed = Inr aggs"
  shows "map week_start aggs
           = map (\<lambda>k. monday_on_or_before sd + 7 * int k)
               [0..<nat ((ed - monday_on_or_before sd + 6) div 7)]"
proof -
  from weekly_aggregates_spec[OF assms] obtain weeks where
    len: "length aggs = nat ((ed - monday_on_or_before sd + 6) div 7)" and
    el: "\<forall>i < length aggs.
           create_weekly_aggregate B (monday_on_or_before sd + 7 * int i)
             (weeks_get weeks (monday_on_or_before sd + 7 * int i)) gd (1 + int i)
           = Inr (aggs ! i)"
    by blast
  have "week_start (aggs ! i) = monday_on_or_before sd + 7 * int i" if "i < length aggs" for i
    using el that create_weekly_aggregate_head by blast
  then show ?thesis unfolding len[symmetric] by (intro nth_equalityI) simp_all
qed

lemma group_step_weeks:
  "group_step B a m = Inr weeks \<Longrightarrow>
     weeks_get weeks w = weeks_get m w @ filter (in_week B w) [a]"
  unfolding group_step_def weeks_get_def in_week_def date_of_def
  by (auto split: sum.splits option.splits dest!: get_week_start_Inr)

lemma group_loop_weeks:
  "for_each (group_step B) acts m = Inr weeks \<Longrightarrow>
     weeks_get weeks w = weeks_get m w @ filter (in_week B w) acts"
proof (induction acts arbitrary: m)
  case Nil
  then show ?case by simp
next
  case (Cons a acts)
  from Cons.prems obtain m1 where
    s1: "group_step B a m = Inr m1" and
    s2: "for_each (group_step B) acts m1 = Inr weeks"
    by (auto split: sum.splits)
  from Cons.IH[OF s2] group_step_weeks[OF s1, of w] show ?case by simp
qed

lemma group_weeks_activities:
  "for_each (group_step B) acts Map.empty = Inr weeks \<Longrightarrow>
     weeks_get weeks w = week_activities B acts w"
  using group_loop_weeks[of B acts Map.empty weeks w]
  by (simp add: weeks_get_def week_activities_def)

lemma in_week_activities:
  assumes "a \<in> set acts" and "date_of B a = Some d"
  shows "a \<in> set (week_activities B acts w) \<longleftrightarrow> monday_on_or_before d = w"
  using assms by (simp add: week_activities_def in_week_def)

lemma aggregate_by_week_Inr:
  "aggregate_by_week B acts gd sd ed = Inr trends \<Longrightarrow>
     \<exists>aggs. weekly_aggregates B acts gd sd ed = Inr aggs \<and> trends = map to_dict aggs"
  by (auto simp: aggregate_by_week_def split: sum.splits)

lemma to_dict_head:
  "d_week_start (to_dict a) = week_start a" "d_week_end (to_dict a) = week_end a"
  "d_week_number (to_dict a) = week_number a"
  "volume_total_activities (to_dict a) = total_activities a"
  by (simp_all add: to_dict_def)

lemma to_dict_load:
  "intensity_total_training_load (to_dict a) = round_if (total_training_load a) 1"
  "key_highest_intensity_type (to_dict a) = highest_intensity_activity a"
  "recovery_avg_resting_hr (to_dict a) = round_if (avg_resting_hr a) 1"
  "recovery_avg_sleep_hours (to_dict a) = round_if (avg_sleep_hours a) 2"
  by (simp_all add: to_dict_def)

lemma to_dict_volume:
  "volume_total_distance_km (to_dict a) = py_round (total_distance_km a) 2"
  "volume_total_duration_hours (to_dict a) = py_round (total_duration_hours a) 2"
  "intensity_avg_heart_rate (to_dict a) = round_if (avg_heart_rate a) 1"
  by (simp_all add: to_dict_def)

lemma aggregate_by_week_weeks:
  assumes "aggregate_by_week B acts gd sd ed = Inr trends"
  defines "W \<equiv> monday_on_or_before sd"
  shows "length trends = nat ((ed - W + 6) div 7)"
    and "map d_week_start trends = map (\<lambda>k. W + 7 * int k) [0..<length trends]"
    and "\<forall>i < length trends. d_week_end (trends ! i) = d_week_start (trends ! i) + 6
                           \<and> d_week_number (trends ! i) = int i + 1"
proof -
  from aggregate_by_week_Inr[OF assms(1)] obtain aggs where
    a: "weekly_aggregates B acts gd sd ed = Inr aggs" and t: "trends = map to_dict aggs" by blast
  from weekly_aggregates_spec[OF a] obtain weeks where
    len: "length aggs = nat ((ed - W + 6) div 7)" and
    el: "\<forall>i < length aggs.
           create_weekly_aggregate B (W + 7 * int i) (weeks_get weeks (W + 7 * int i)) gd
             (1 + int i) = Inr (aggs ! i)"
    unfolding W_def by blast
  have h: "week_start (aggs ! i) = W + 7 * int i \<and> week_end (aggs ! i) = W + 7 * int i + 6
           \<and> week_number (aggs ! i) = 1 + int i" if "i < length aggs" for i
    using el that create_weekly_aggregate_head by blast
  from len t show "length trends = nat ((ed - W + 6) div 7)" by simp
  show "map d_week_start trends = map (\<lambda>k. W + 7 * int k) [0..<length trends]"
    unfolding t by (rule nth_equalityI) (simp_all add: to_dict_head h)
  show "\<forall>i < length trends. d_week_end (trends ! i) = d_week_start (trends ! i) + 6
                           \<and> d_week_number (trends ! i) = int i + 1"
    unfolding t by (simp add: to_dict_head h)
qed


section \<open>The weeks of a returning call\<close>

text \<open>
  Every aggregate of a returning call is the aggregate built from the historical
  activities of its week, and its fields are read off the inputs. An activity of the
  historical bucket is counted in exactly one aggregate when its week starts before the
  recent cutoff, and in none when its week starts on the cutoff.
\<close>

lemma prepare_agent_context_weeks:
  assumes "prepare_agent_context B gd ad rw tw = Inr ctx"
  defines "rc \<equiv> analysis_day B ad - rw" and "tc \<equiv> analysis_day B ad - tw"
  defines "hist \<equiv> historical_bucket B gd rc tc"
  shows "\<exists>aggs. weekly_aggregates B hist gd tc rc = Inr aggs
           \<and> weekly_trends ctx = map to_dict aggs
           \<and> (\<forall>agg \<in> set aggs. \<exists>n.
                 create_weekly_aggregate B (week_start agg)
                   (week_activities B hist (week_start agg)) gd n = Inr agg)"
proof -
  from prepare_agent_context_Inr[OF assms(1)] obtain historical where
    sp: "split_activities B rc tc (input_activities gd) = Inr (recent_activities ctx, historical)"
    and ag: "aggregate_by_week B historical gd tc rc = Inr (weekly_trends ctx)"
    unfolding rc_def tc_def by blast
  from split_loop[of B rc tc "input_activities gd" "([], [])" "(recent_activities ctx, historical)"]
    sp have h: "historical = hist"
    by (simp add: split_activities_def hist_def historical_bucket_def)
  from aggregate_by_week_Inr[OF ag] obtain aggs where
    a: "weekly_aggregates B hist gd tc rc = Inr aggs" and t: "weekly_trends ctx = map to_dict aggs"
    unfolding h by blast
  from weekly_aggregates_spec[OF a] obtain weeks where
    g: "for_each (group_step B) hist Map.empty = Inr weeks" and
    el: "\<forall>i < length aggs.
           create_weekly_aggregate B (monday_on_or_before tc + 7 * int i)
             (weeks_get weeks (monday_on_or_before tc + 7 * int i)) gd (1 + int i)
           = Inr (aggs ! i)"
    by blast
  have "\<exists>n. create_weekly_aggregate B (week_start agg)
                   (week_activities B hist (week_start agg)) gd n = Inr agg"
    if "agg \<in> set aggs" for agg
  proof -
    from that obtain i where i: "i < length aggs" "agg = aggs ! i"
      by (auto simp: in_set_conv_nth)
    with el have c: "create_weekly_aggregate B (monday_on_or_before tc + 7 * int i)
             (weeks_get weeks (monday_on_or_before tc + 7 * int i)) gd (1 + int i) = Inr agg"
      by simp
    from create_weekly_aggregate_head[OF c]
    have "week_start agg = monday_on_or_before tc + 7 * int i" by simp
    with c show ?thesis unfolding group_weeks_activities[OF g] by auto
  qed
  with a t show ?thesis by blast
qed

lemma prepare_agent_context_fields:
  assumes "prepare_agent_context B gd ad rw tw = Inr ctx"
  defines "rc \<equiv> analysis_day B ad - rw" and "tc \<equiv> analysis_day B ad - tw"
  defines "hist \<equiv> historical_bucket B gd rc tc"
  shows "\<exists>aggs. weekly_aggregates B hist gd tc rc = Inr aggs
           \<and> weekly_trends ctx = map to_dict aggs
           \<and> (\<forall>agg \<in> set aggs.
                 week_end agg = week_start agg + 6
                 \<and> total_training_load agg
                     = (if 0 < week_load_sum B hist (week_start agg)
                        then Some (week_load_sum B hist (week_start agg)) else None)
                 \<and> highest_intensity_activity agg
                     = (case first_max (training_load_of B)
                               (week_activities B hist (week_start agg)) of
                          None \<Rightarrow> PNone
                        | Some a \<Rightarrow>
                            if 0 < training_load_of B a then activity_type_of a else PNone)
                 \<and> avg_resting_hr agg
                     = mean (week_rhrs B (week_start agg) (week_start agg + 6)
                               (recovery_entries gd))
                 \<and> avg_sleep_hours agg
                     = mean (week_sleeps B (week_start agg) (week_start agg + 6)
                               (recovery_entries gd)))"
proof -
  from prepare_agent_context_weeks[OF assms(1)] obtain aggs where
    a: "weekly_aggregates B hist gd tc rc = Inr aggs" and
    t: "weekly_trends ctx = map to_dict aggs" and
    c: "\<forall>agg \<in> set aggs. \<exists>n.
          create_weekly_aggregate B (week_start agg)
            (week_activities B hist (week_start agg)) gd n = Inr agg"
    unfolding hist_def rc_def tc_def by blast
  have "week_end agg = week_start agg + 6
                 \<and> total_training_load agg
                     = (if 0 < week_load_sum B hist (week_start agg)
                        then Some (week_load_sum B hist (week_start agg)) else None)
                 \<and> highest_intensity_activity agg
                     = (case first_max (training_load_of B)
                               (week_activities B hist (week_start agg)) of
                          None \<Rightarrow> PNone
                        | Some a \<Rightarrow>
                            if 0 < training_load_of B a then activity_type_of a else PNone)
                 \<and> avg_resting_hr agg
                     = mean (week_rhrs B (week_start agg) (week_start agg + 6)
                               (recovery_entries gd))
                 \<and> avg_sleep_hours agg
                     = mean (week_sleeps B (week_start agg) (week_start agg + 6)
                               (recovery_entries gd))"
    if "agg \<in> set aggs" for agg
  proof -
    from c that obtain n where n:
      "create_weekly_aggregate B (week_start agg)
         (week_activities B hist (week_start agg)) gd n = Inr agg" by blast
    from create_weekly_aggregate_fields(4-7)[OF n] create_weekly_aggregate_head[OF n]
    show ?thesis by (simp add: week_load_sum_def)
  qed
  with a t show ?thesis by blast
qed

lemma historical_activities_counted:
  assumes "prepare_agent_context B gd ad rw tw = Inr ctx"
  defines "rc \<equiv> analysis_day B ad - rw" and "tc \<equiv> analysis_day B ad - tw"
  defines "hist \<equiv> historical_bucket B gd rc tc"
  assumes "a \<in> set hist" and "date_of B a = Some d"
  shows "\<exists>aggs. weekly_aggregates B hist gd tc rc = Inr aggs
           \<and> weekly_trends ctx = map to_dict aggs
           \<and> (\<forall>agg \<in> set aggs.
                 total_activities agg = length (week_activities B hist (week_start agg)))
           \<and> (monday_on_or_before d < rc \<longrightarrow>
                 (\<exists>!i. i < length aggs
                    \<and> a \<in> set (week_activities B hist (week_start (aggs ! i)))))
           \<and> (monday_on_or_before d = rc \<longrightarrow>
                 (\<forall>agg \<in> set aggs. a \<notin> set (week_activities B hist (week_start agg))))"
proof -
  define W where "W = monday_on_or_before tc"
  from prepare_agent_context_weeks[OF assms(1)] obtain aggs where
    a: "weekly_aggregates B hist gd tc rc = Inr aggs" and
    t: "weekly_trends ctx = map to_dict aggs" and
    c: "\<forall>agg \<in> set aggs. \<exists>n.
          create_weekly_aggregate B (week_start agg)
            (week_activities B hist (week_start agg)) gd n = Inr agg"
    unfolding hist_def rc_def tc_def by blast
  have cnt: "\<forall>agg \<in> set aggs.
      total_activities agg = length (week_activities B hist (week_start agg))"
    using c create_weekly_aggregate_head by blast
  note ws = weekly_aggregates_starts[OF a, folded W_def]
  have len: "length aggs = nat ((rc - W + 6) div 7)"
    using arg_cong[OF ws, of length] by simp
  have nth: "week_start (aggs ! i) = W + 7 * int i" if "i < length aggs" for i
    using arg_cong[OF ws, of "\<lambda>l. l ! i"] that len by simp
  have mem: "x \<in> set (week_activities B hist w) \<longleftrightarrow> monday_on_or_before d = w"
    if "x = a" for x w
    using in_week_activities[OF assms(5,6)] that by simp
  from historical_bucket_dates[OF assms(5)[unfolded hist_def]] assms(6)
  have d: "tc < d" "d \<le> rc" by auto
  have "weekday W = 0" unfolding W_def by (rule weekday_monday)
  note mb = mondays_between[OF this, of rc]
  have one: "\<exists>!i. i < length aggs \<and> a \<in> set (week_activities B hist (week_start (aggs ! i)))"
    if lt: "monday_on_or_before d < rc"
  proof -
    from d(1) have "W \<le> monday_on_or_before d" unfolding W_def by (simp add: monday_mono)
    with lt weekday_monday[of d]
    have "monday_on_or_before d \<in> {w. W \<le> w \<and> w < rc \<and> weekday w = 0}" by simp
    then have "monday_on_or_before d \<in> (\<lambda>k. W + 7 * int k) ` {0..<nat ((rc - W + 6) div 7)}"
      unfolding mb .
    then obtain k where k: "k < nat ((rc - W + 6) div 7)" "monday_on_or_before d = W + 7 * int k"
      by (auto simp: image_iff)
    show ?thesis
    proof (rule ex1I[of _ k])
      from k len nth show "k < length aggs
          \<and> a \<in> set (week_activities B hist (week_start (aggs ! k)))"
        by (simp add: mem)
    next
      fix i assume i: "i < length aggs \<and> a \<in> set (week_activities B hist (week_start (aggs ! i)))"
      then have "monday_on_or_before d = week_start (aggs ! i)" by (simp add: mem)
      with i nth[of i] k(2) show "i = k" by simp
    qed
  qed
  have none: "\<forall>agg \<in> set aggs. a \<notin> set (week_activities B hist (week_start agg))"
    if eq: "monday_on_or_before d = rc"
  proof
    fix agg assume "agg \<in> set aggs"
    then obtain i where i: "i < length aggs" "agg = aggs ! i" by (auto simp: in_set_conv_nth)
    with nth have "week_start agg \<in> (\<lambda>k. W + 7 * int k) ` {0..<nat ((rc - W + 6) div 7)}"
      using len by auto
    then have "week_start agg \<in> {w. W \<le> w \<and> w < rc \<and> weekday w = 0}"
      unfolding mb .
    then have "week_start agg < rc" by simp
    with eq show "a \<notin> set (week_activities B hist (week_start agg))" by (simp add: mem)
  qed
  from a t cnt one none show ?thesis by blast
qed


section \<open>The empty dataset\<close>

text \<open>
  The dates walked do not depend on the data: where a call returns, the call on the
  empty dataset with the same date and windows returns too.
\<close>

lemma create_weekly_aggregate_empty:
  assumes "valid_date (w + 6)"
  shows "\<exists>agg. create_weekly_aggregate B w [] empty_data n = Inr agg"
proof -
  from assms have d: "date_plus_days w 6 = Inr (w + 6)"
    by (simp add: date_plus_days_def timedelta_def date_add_def)
  have r: "extract_weekly_recovery_metrics B empty_data w (w + 6) = Inr (None, None)"
    by (simp add: extract_weekly_recovery_metrics_def empty_data_def dict_get_def mean_def)
  show ?thesis unfolding create_weekly_aggregate_def by (simp add: d r)
qed

lemma week_loop_empty:
  "week_loop B gd weeks e cur n aggs = Inr res \<Longrightarrow>
     \<exists>res0. week_loop B empty_data Map.empty e cur n0 aggs0 = Inr res0"
proof (induction B gd weeks e cur n aggs arbitrary: res n0 aggs0 rule: week_loop.induct)
  case (1 B gd weeks e cur n aggs)
  show ?case
  proof (cases "cur < e")
    case False
    then show ?thesis by (simp add: week_loop.simps)
  next
    case True
    from "1.prems" True obtain agg nxt where
      c: "create_weekly_aggregate B cur (weeks_get weeks cur) gd n = Inr agg" and
      d: "date_plus_days cur 7 = Inr nxt" and
      r: "week_loop B gd weeks e nxt (n + 1) (aggs @ [agg]) = Inr res"
      by (subst (asm) week_loop.simps) (auto split: sum.splits)
    from create_weekly_aggregate_head[OF c] have "valid_date (cur + 6)" by simp
    from create_weekly_aggregate_empty[OF this, of B n0] obtain agg0 where
      c0: "create_weekly_aggregate B cur [] empty_data n0 = Inr agg0" by blast
    from "1.IH"[OF True c d r, of "n0 + 1" "aggs0 @ [agg0]"] obtain res0 where
      "week_loop B empty_data Map.empty e nxt (n0 + 1) (aggs0 @ [agg0]) = Inr res0" by blast
    with True c0 d show ?thesis
      by (subst week_loop.simps) (simp add: weeks_get_def)
  qed
qed

lemma empty_data_returns:
  assumes "prepare_agent_context B gd ad rw tw = Inr ctx"
  shows "\<exists>ctx0. prepare_agent_context B empty_data ad rw tw = Inr ctx0"
proof -
  define td where "td = analysis_day B ad"
  from assms obtain rc tc h trends where
    rc: "date_minus_days td rw = Inr rc" and
    tc: "date_minus_days td tw = Inr tc" and
    ag: "aggregate_by_week B h gd tc rc = Inr trends"
    unfolding prepare_agent_context_def Let_def analysis_day_def[symmetric] td_def[symmetric]
    by (auto split: sum.splits)
  from aggregate_by_week_Inr[OF ag] obtain aggs where
    "weekly_aggregates B h gd tc rc = Inr aggs" by blast
  then obtain weeks cur res where
    w: "get_week_start tc = Inr cur" and
    l: "week_loop B gd weeks rc cur 1 [] = Inr res"
    unfolding weekly_aggregates_def by (auto split: sum.splits)
  from week_loop_empty[OF l, of 1 "[]"] obtain res0 where
    l0: "week_loop B empty_data Map.empty rc cur 1 [] = Inr res0" by blast
  have a0: "aggregate_by_week B [] empty_data tc rc = Inr (map to_dict (sort_key week_start res0))"
    by (simp add: aggregate_by_week_def weekly_aggregates_def w l0)
  have m: "\<exists>m. extract_current_metrics empty_data = Inr m"
    by (simp add: extract_current_metrics_def empty_data_def dict_get_def)
  then obtain m where m: "extract_current_metrics empty_data = Inr m" by blast
  have g: "py_get empty_data ''recent_activities'' (PList []) = Inr (PList [])"
    by (simp add: empty_data_def dict_get_def)
  show ?thesis
    unfolding prepare_agent_context_def Let_def analysis_day_def[symmetric] td_def[symmetric]
    by (simp add: g rc tc split_activities_def a0 m)
qed


section \<open>The sample datasets\<close>

text \<open>
  The calls on the sample datasets return; the weeks walked on them, and what the readers
  give on them. A distance beyond the range of a double leaves the call with the
  OverflowError of \<^verbatim>\<open>float\<close>.
\<close>

lemma std_day: "analysis_day std None = 739579"
  by (simp add: analysis_day_def std_def)

lemma partition_data_returns:
  "\<exists>ctx. prepare_agent_context std partition_data None 14 28 = Inr ctx"
proof -
  have "map_sum id preparation_date (prepare_agent_context std partition_data None 14 28)
          = Inr 739579"
    by code_simp
  then show ?thesis by (cases "prepare_agent_context std partition_data None 14 28") auto
qed

lemma week_data_returns:
  "\<exists>ctx. prepare_agent_context std week_data None 14 28 = Inr ctx"
proof -
  have "map_sum id preparation_date (prepare_agent_context std week_data None 14 28)
          = Inr 739579"
    by code_simp
  then show ?thesis by (cases "prepare_agent_context std week_data None 14 28") auto
qed

lemma load_data_returns:
  "\<exists>ctx. prepare_agent_context std load_data None 14 35 = Inr ctx"
proof -
  have "map_sum id preparation_date (prepare_agent_context std load_data None 14 35)
          = Inr 739579"
    by code_simp
  then show ?thesis by (cases "prepare_agent_context std load_data None 14 35") auto
qed

lemma negative_data_returns:
  "\<exists>ctx. prepare_agent_context std negative_data None 14 28 = Inr ctx"
proof -
  have "map_sum id preparation_date (prepare_agent_context std negative_data None 14 28)
          = Inr 739579"
    by code_simp
  then show ?thesis by (cases "prepare_agent_context std negative_data None 14 28") auto
qed

lemma huge_distance_raises:
  "prepare_agent_context std huge_distance_data None 14 28 = Inl OverflowError"
  by code_simp

lemma std_two_weeks:
  assumes "weekly_aggregates std acts gd 739551 739565 = Inr aggs"
  shows "\<exists>x y. aggs = [x, y] \<and> week_start x = 739551 \<and> week_start y = 739558"
proof -
  have "monday_on_or_before 739551 = 739551" by (simp add: monday_on_or_before_def weekday_def)
  with weekly_aggregates_starts[OF assms]
  have "map week_start aggs = [739551, 739558]" by (simp add: upt_rec)
  then show ?thesis by (cases aggs; cases "tl aggs") auto
qed

lemma std_three_weeks:
  assumes "weekly_aggregates std acts gd 739544 739565 = Inr aggs"
  shows "\<exists>x y z. aggs = [x, y, z] \<and> week_start x = 739544 \<and> week_start y = 739551
           \<and> week_start z = 739558"
proof -
  have "monday_on_or_before 739544 = 739544" by (simp add: monday_on_or_before_def weekday_def)
  with weekly_aggregates_starts[OF assms]
  have "map week_start aggs = [739544, 739551, 739558]" by (simp add: upt_rec)
  then show ?thesis by (cases aggs; cases "tl aggs"; cases "tl (tl aggs)") auto
qed

lemma week_data_weeks:
  "week_activities std (historical_bucket std week_data 739565 739551) 739551 = []"
  "week_activities std (historical_bucket std week_data 739565 739551) 739558
     = input_activities week_data"
  by code_simp+

lemma week_data_recovery:
  "week_rhrs std 739551 739557 (recovery_entries week_data) = []"
  "week_sleeps std 739551 739557 (recovery_entries week_data) = [13 / 2]"
  "week_rhrs std 739558 739564 (recovery_entries week_data) = [50, 60]"
  "week_sleeps std 739558 739564 (recovery_entries week_data) = [7, 8]"
  by code_simp+

lemma week_data_nonneg:
  "list_all (nonneg_number \<circ> rhr_of) (recovery_entries week_data)"
  "list_all (nonneg_number \<circ> total_sleep_of) (recovery_entries week_data)"
  by code_simp+

lemma zero_entries:
  "is_zero (rhr_of (sleep_entry ''2025-10-28'' (PInt 0) (PFloat (13 / 2))))"
  "is_zero (total_sleep_of (sleep_entry ''2025-10-29'' (PInt 48) (PFloat 0)))"
  "recovery_step std 739551 739557
     (without_rhr (sleep_entry ''2025-10-28'' (PInt 0) (PFloat (13 / 2)))) ([], [])
     = Inr ([], [13 / 2])"
  "recovery_step std 739551 739557
     (without_total_sleep (sleep_entry ''2025-10-29'' (PInt 48) (PFloat 0))) ([], [])
     = Inr ([48], [])"
  by code_simp+


lemma load_data_weeks:
  "week_activities std (historical_bucket std load_data 739565 739544) 739544
     = [run ''2025-10-22'' (PDict [(''activity_training_load'', PInt 0)]),
        ride ''2025-10-23'' (PDict [])]"
  "week_activities std (historical_bucket std load_data 739565 739544) 739551
     = [run ''2025-10-29'' (PDict [(''activity_training_load'', PFloat (1 / 25))])]"
  "week_activities std (historical_bucket std load_data 739565 739544) 739558
     = [run ''2025-11-04'' (PDict [(''activity_training_load'', PFloat (617 / 50))]),
        ride ''2025-11-05'' (PDict [(''activity_training_load'', PFloat (617 / 50))])]"
  by code_simp+

lemma load_data_first_max:
  "first_max (training_load_of std)
     [run ''2025-10-22'' (PDict [(''activity_training_load'', PInt 0)]),
      ride ''2025-10-23'' (PDict [])]
     = Some (run ''2025-10-22'' (PDict [(''activity_training_load'', PInt 0)]))"
  "first_max (training_load_of std)
     [run ''2025-10-29'' (PDict [(''activity_training_load'', PFloat (1 / 25))])]
     = Some (run ''2025-10-29'' (PDict [(''activity_training_load'', PFloat (1 / 25))]))"
  "first_max (training_load_of std)
     [run ''2025-11-04'' (PDict [(''activity_training_load'', PFloat (617 / 50))]),
      ride ''2025-11-05'' (PDict [(''activity_training_load'', PFloat (617 / 50))])]
     = Some (run ''2025-11-04'' (PDict [(''activity_training_load'', PFloat (617 / 50))]))"
  by code_simp+

lemma load_data_loads:
  "training_load_of std (run ''2025-10-22'' (PDict [(''activity_training_load'', PInt 0)])) = 0"
  "training_load_of std (run ''2025-10-29'' (PDict [(''activity_training_load'', PFloat (1 / 25))]))
     = 1 / 25"
  "training_load_of std (run ''2025-11-04'' (PDict [(''activity_training_load'', PFloat (617 / 50))]))
     = 617 / 50"
  "activity_type_of (run s v) = PStr ''running''"
  by (simp_all add: training_load_of_def summary_of_def run_def dict_get_def coerced_def
      safe_float_def int_fits_float_def activity_type_of_def)


lemma py_round_volume:
  "py_round 0 2 = 0" "py_round 30 2 = 30" "py_round (5 / 2) 2 = 5 / 2"
  "py_round 145 (Suc 0) = 145"
  by (simp_all add: py_round_def round_half_even_def Let_def)

lemma py_round_recovery:
  "py_round 55 (Suc 0) = 55" "py_round (13 / 2) 2 = 13 / 2" "py_round (15 / 2) 2 = 15 / 2"
  by (simp_all add: py_round_def round_half_even_def Let_def)

lemma negative_data_recovery:
  "week_rhrs std 739551 739557 (recovery_entries negative_data) = []"
  "week_sleeps std 739551 739557 (recovery_entries negative_data) = []"
  "week_rhrs std 739558 739564 (recovery_entries negative_data) = [- 5]"
  "week_sleeps std 739558 739564 (recovery_entries negative_data) = [- 1]"
  by code_simp+

lemma py_round_negative:
  "py_round (- 5) (Suc 0) = - 5" "py_round (- 1) 2 = - 1"
  by (simp_all add: py_round_def round_half_even_def Let_def)


section \<open>Window partitioner: the three buckets\<close>

text \<open>
  Claim C1. Whenever \<^verbatim>\<open>prepare_agent_context\<close> returns, with
  \<open>rc = today - recent_window_days\<close> and \<open>tc = today - trends_window_days\<close>: the recent
  bucket is the sublist, in input order and unmodified, of the activities whose date
  \<open>d\<close> has \<open>d > rc\<close>; the historical bucket (the list handed to the weekly
  aggregator) is the sublist of those with \<open>d \<le> rc\<close> and \<open>d > tc\<close>, so a date equal
  to \<open>rc\<close> is historical; an activity with \<open>d \<le> tc\<close> (and not recent) is in
  neither, and so is an activity whose date extraction returns None. For each activity
  with a date exactly one of the three cases holds.
\<close>

theorem window_partition:
  assumes "prepare_agent_context B gd ad rw tw = Inr ctx"
  defines "acts \<equiv> input_activities gd"
    and "rc \<equiv> analysis_day B ad - rw"
    and "tc \<equiv> analysis_day B ad - tw"
  shows "\<exists>historical.
     split_activities B rc tc acts = Inr (recent_activities ctx, historical)
     \<and> aggregate_by_week B historical gd tc rc = Inr (weekly_trends ctx)
     \<and> recent_activities ctx
         = filter (\<lambda>a. case date_of B a of None \<Rightarrow> False | Some d \<Rightarrow> d > rc) acts
     \<and> historical
         = filter (\<lambda>a. case date_of B a of None \<Rightarrow> False | Some d \<Rightarrow> d \<le> rc \<and> d > tc) acts
     \<and> (\<forall>a \<in> set acts.
          case date_of B a of
            None \<Rightarrow> a \<notin> set (recent_activities ctx) \<and> a \<notin> set historical
          | Some d \<Rightarrow>
              (d > rc \<longrightarrow> a \<in> set (recent_activities ctx) \<and> a \<notin> set historical)
              \<and> (d \<le> rc \<and> d > tc \<longrightarrow> a \<notin> set (recent_activities ctx) \<and> a \<in> set historical)
              \<and> (d \<le> rc \<and> d \<le> tc \<longrightarrow> a \<notin> set (recent_activities ctx) \<and> a \<notin> set historical))"
proof -
  from prepare_agent_context_Inr[OF assms(1)] obtain historical where
    sp: "split_activities B rc tc acts = Inr (recent_activities ctx, historical)" and
    ag: "aggregate_by_week B historical gd tc rc = Inr (weekly_trends ctx)"
    unfolding acts_def rc_def tc_def by blast
  from sp have
    r: "recent_activities ctx
         = filter (\<lambda>a. case date_of B a of None \<Rightarrow> False | Some d \<Rightarrow> d > rc) acts" and
    h: "historical
         = filter (\<lambda>a. case date_of B a of None \<Rightarrow> False | Some d \<Rightarrow> d \<le> rc \<and> d > tc) acts"
    using split_loop[of B rc tc acts "([], [])" "(recent_activities ctx, historical)"]
    by (simp_all add: split_activities_def)
  have "\<forall>a \<in> set acts.
          case date_of B a of
            None \<Rightarrow> a \<notin> set (recent_activities ctx) \<and> a \<notin> set historical
          | Some d \<Rightarrow>
              (d > rc \<longrightarrow> a \<in> set (recent_activities ctx) \<and> a \<notin> set historical)
              \<and> (d \<le> rc \<and> d > tc \<longrightarrow> a \<notin> set (recent_activities ctx) \<and> a \<in> set historical)
              \<and> (d \<le> rc \<and> d \<le> tc \<longrightarrow> a \<notin> set (recent_activities ctx) \<and> a \<notin> set historical)"
    unfolding r h by (auto split: option.splits)
  with sp ag r h show ?thesis by blast
qed

theorem window_partition_witness:
  "\<exists>ctx. prepare_agent_context std partition_data None 14 28 = Inr ctx
     \<and> recent_activities ctx = [run ''2025-11-20T06:00:00'' (PDict [(''distance'', PInt 5000)])]
     \<and> (\<exists>historical.
          split_activities std 739565 739551 (input_activities partition_data)
            = Inr (recent_activities ctx, historical)
          \<and> historical = [run ''2025-11-05T07:00:00Z'' (PDict [(''distance'', PStr ''7000.5'')]),
                          run ''2025-11-09'' (PDict [(''distance'', PInt 20000)]),
                          run ''2025-11-10'' (PDict [(''distance'', PInt 3000)])])"
proof -
  have e: "map_sum id recent_activities (prepare_agent_context std partition_data None 14 28)
            = Inr [run ''2025-11-20T06:00:00'' (PDict [(''distance'', PInt 5000)])]"
    by code_simp
  then obtain ctx where
    c: "prepare_agent_context std partition_data None 14 28 = Inr ctx" and
    r: "recent_activities ctx = [run ''2025-11-20T06:00:00'' (PDict [(''distance'', PInt 5000)])]"
    by (cases "prepare_agent_context std partition_data None 14 28") auto
  have s: "split_activities std 739565 739551 (input_activities partition_data)
      = Inr ([run ''2025-11-20T06:00:00'' (PDict [(''distance'', PInt 5000)])],
             [run ''2025-11-05T07:00:00Z'' (PDict [(''distance'', PStr ''7000.5'')]),
              run ''2025-11-09'' (PDict [(''distance'', PInt 20000)]),
              run ''2025-11-10'' (PDict [(''distance'', PInt 3000)])])"
    by code_simp
  have d: "analysis_day std None = 739579" by (simp add: analysis_day_def std_def)
  from window_partition[OF c] obtain historical where
    "split_activities std 739565 739551 (input_activities partition_data)
       = Inr (recent_activities ctx, historical)"
    unfolding d by auto
  with s c r show ?thesis by auto
qed


section \<open>Weekly aggregator: the weeks walked\<close>

text \<open>
  Claim C2. Whenever \<^verbatim>\<open>prepare_agent_context\<close> returns, with
  \<open>rc = today - recent_window_days\<close> and \<open>W\<close> the Monday on or before
  \<open>today - trends_window_days\<close>: the week starts of \<^verbatim>\<open>weekly_trends\<close> are
  \<open>W, W + 7, W + 14, ...\<close> in this order, strictly increasing; they are exactly the
  Mondays \<open>w\<close> with \<open>W \<le> w < rc\<close>; their number is given by the dates alone; each
  week ends six days after its start, and the week numbers count from 1. The call on the
  empty dataset, with the same date and windows, then returns as well and emits the same
  week starts, hence the same number of weeks.
\<close>

theorem week_coverage:
  assumes "prepare_agent_context B gd ad rw tw = Inr ctx"
  defines "rc \<equiv> analysis_day B ad - rw"
    and "W \<equiv> monday_on_or_before (analysis_day B ad - tw)"
  shows "map d_week_start (weekly_trends ctx)
           = map (\<lambda>k. W + 7 * int k) [0..<length (weekly_trends ctx)]
       \<and> sorted_wrt (<) (map d_week_start (weekly_trends ctx))
       \<and> set (map d_week_start (weekly_trends ctx)) = {w. W \<le> w \<and> w < rc \<and> weekday w = 0}
       \<and> length (weekly_trends ctx) = nat ((rc - W + 6) div 7)
       \<and> (\<forall>i < length (weekly_trends ctx).
             d_week_end (weekly_trends ctx ! i) = d_week_start (weekly_trends ctx ! i) + 6
             \<and> d_week_number (weekly_trends ctx ! i) = int i + 1)
       \<and> (\<exists>ctx0. prepare_agent_context B empty_data ad rw tw = Inr ctx0
             \<and> map d_week_start (weekly_trends ctx0) = map d_week_start (weekly_trends ctx)
             \<and> length (weekly_trends ctx0) = length (weekly_trends ctx))"
proof -
  from prepare_agent_context_Inr[OF assms(1)] obtain historical where
    ag: "aggregate_by_week B historical gd (analysis_day B ad - tw) rc
           = Inr (weekly_trends ctx)"
    unfolding rc_def by blast
  note w = aggregate_by_week_weeks[OF ag, folded W_def]
  have "weekday W = 0" unfolding W_def by (rule weekday_monday)
  from mondays_between[OF this, of rc]
  have s: "set (map d_week_start (weekly_trends ctx))
          = {w. W \<le> w \<and> w < rc \<and> weekday w = 0}"
    unfolding w(2) w(1) by simp
  have o: "sorted_wrt (<) (map d_week_start (weekly_trends ctx))"
    unfolding w(2) by (simp add: sorted_wrt_map sorted_wrt_iff_nth_less)
  from empty_data_returns[OF assms(1)] obtain ctx0 where
    c0: "prepare_agent_context B empty_data ad rw tw = Inr ctx0" by blast
  from prepare_agent_context_Inr[OF c0] obtain h0 where
    ag0: "aggregate_by_week B h0 empty_data (analysis_day B ad - tw) rc
            = Inr (weekly_trends ctx0)"
    unfolding rc_def by blast
  note w0 = aggregate_by_week_weeks[OF ag0, folded W_def]
  from w(1) w0(1) have l: "length (weekly_trends ctx0) = length (weekly_trends ctx)" by simp
  from w(2) w0(2) l have
    m: "map d_week_start (weekly_trends ctx0) = map d_week_start (weekly_trends ctx)" by simp
  from c0 m l have e: "\<exists>ctx0. prepare_agent_context B empty_data ad rw tw = Inr ctx0
             \<and> map d_week_start (weekly_trends ctx0) = map d_week_start (weekly_trends ctx)
             \<and> length (weekly_trends ctx0) = length (weekly_trends ctx)" by blast
  from w s o e show ?thesis by (intro conjI)
qed

theorem week_coverage_witness:
  "\<exists>ctx ctx0.
      prepare_agent_context std partition_data None 14 28 = Inr ctx
      \<and> prepare_agent_context std empty_data None 14 28 = Inr ctx0
      \<and> map d_week_start (weekly_trends ctx) = [739551, 739558]
      \<and> map d_week_end (weekly_trends ctx) = [739557, 739564]
      \<and> map d_week_number (weekly_trends ctx) = [1, 2]
      \<and> map d_week_start (weekly_trends ctx0) = [739551, 739558]"
proof -
  from partition_data_returns obtain ctx where
    c: "prepare_agent_context std partition_data None 14 28 = Inr ctx" by blast
  have W: "monday_on_or_before (739579 - 28) = 739551"
    by (simp add: monday_on_or_before_def weekday_def)
  note t = week_coverage[OF c, unfolded std_day W]
  from t have
    s: "map d_week_start (weekly_trends ctx)
          = map (\<lambda>k. 739551 + 7 * int k) [0..<length (weekly_trends ctx)]" and
    l: "length (weekly_trends ctx) = 2" and
    e: "\<forall>i < length (weekly_trends ctx).
          d_week_end (weekly_trends ctx ! i) = d_week_start (weekly_trends ctx ! i) + 6
          \<and> d_week_number (weekly_trends ctx ! i) = int i + 1"
    by simp_all
  from t obtain ctx0 where
    c0: "prepare_agent_context std empty_data None 14 28 = Inr ctx0" and
    m0: "map d_week_start (weekly_trends ctx0) = map d_week_start (weekly_trends ctx)"
    by blast
  from s l have s2: "map d_week_start (weekly_trends ctx) = [739551, 739558]"
    by (simp add: upt_rec)
  from l obtain a b where ab: "weekly_trends ctx = [a, b]"
    by (cases "weekly_trends ctx"; cases "tl (weekly_trends ctx)") auto
  from e s2 have "map d_week_end (weekly_trends ctx) = [739557, 739564]"
    "map d_week_number (weekly_trends ctx) = [1, 2]"
    unfolding ab by (auto simp: less_Suc_eq numeral_2_eq_2)
  with c c0 s2 m0 show ?thesis by (intro exI[of _ ctx] exI[of _ ctx0]) simp
qed


section \<open>Weekly aggregator: an activity on the recent cutoff\<close>

text \<open>
  Claim C3 says that every activity of the historical bucket is counted in the weekly
  aggregate of its week. With the analysis on Monday 2025-11-24 and a recent window of
  14 days, the activity dated 2025-11-10, the recent cutoff and a Monday, is in the
  historical bucket, which holds three activities; its week starts at the cutoff, where
  the walk stops, so the two weeks emitted count two activities and the recent list
  does not hold it either.
\<close>

theorem boundary_activity_lost:
  "date_of std (run ''2025-11-10'' (PDict [(''distance'', PInt 3000)])) = Some 739565
   \<and> monday_on_or_before 739565 = 739565
   \<and> historical_bucket std partition_data 739565 739551
       = [run ''2025-11-05T07:00:00Z'' (PDict [(''distance'', PStr ''7000.5'')]),
          run ''2025-11-09'' (PDict [(''distance'', PInt 20000)]),
          run ''2025-11-10'' (PDict [(''distance'', PInt 3000)])]
   \<and> map_sum id recent_activities (prepare_agent_context std partition_data None 14 28)
       = Inr [run ''2025-11-20T06:00:00'' (PDict [(''distance'', PInt 5000)])]
   \<and> map_sum id (map d_week_start \<circ> weekly_trends)
         (prepare_agent_context std partition_data None 14 28) = Inr [739551, 739558]
   \<and> map_sum id (map volume_total_activities \<circ> weekly_trends)
         (prepare_agent_context std partition_data None 14 28) = Inr [0, 2]"
  by code_simp


section \<open>Malformed records\<close>

text \<open>
  Claim C4 says that a partially populated recovery entry, such as one whose sleep block
  is null, never raises. On the dataset whose only recovery entry is dated 2025-11-04,
  inside the second week walked, with a null sleep block, the loop body reaches
  \<^verbatim>\<open>sleep_info.get\<close> on None: the AttributeError is not among the exceptions the
  handler catches, and it leaves \<^verbatim>\<open>prepare_agent_context\<close>.
\<close>

theorem null_sleep_block_raises:
  "prepare_agent_context std sleep_null_data None 14 28 = Inl AttributeError
   \<and> entry_date std (PDict [(''date'', PStr ''2025-11-04''), (''sleep'', PNone)]) = Some 739559
   \<and> recovery_step std 739558 739564
        (PDict [(''date'', PStr ''2025-11-04''), (''sleep'', PNone)]) ([], [])
      = Inl AttributeError"
  by code_simp


section \<open>Weekly aggregator: volume and heart rate\<close>

text \<open>
  Claim C5, as amended. Whenever \<^verbatim>\<open>prepare_agent_context\<close> returns, for every week,
  over the historical activities of the week: the aggregate holds in
  \<open>total_distance_km\<close> the sum of the distances in metres divided by 1000, in
  \<open>total_duration_hours\<close> the sum of the durations in seconds divided by 3600, and in
  \<open>avg_heart_rate\<close> the arithmetic mean of the average heart rates that are strictly
  positive; the emitted week shows the two sums rounded to two decimals and the mean
  rounded to one decimal; the average heart rate is None (not 0), on the aggregate and in
  the emitted week, exactly when no activity of the week reports a positive one.
\<close>

theorem weekly_volume_and_heart_rate:
  assumes "prepare_agent_context B gd ad rw tw = Inr ctx"
  defines "rc \<equiv> analysis_day B ad - rw" and "tc \<equiv> analysis_day B ad - tw"
  defines "hist \<equiv> historical_bucket B gd rc tc"
  shows "\<exists>aggs. weekly_aggregates B hist gd tc rc = Inr aggs
           \<and> weekly_trends ctx = map to_dict aggs
           \<and> (\<forall>agg \<in> set aggs.
                 total_distance_km agg
                   = sum_list (map (\<lambda>a. distance_m_of B a / 1000)
                               (week_activities B hist (week_start agg)))
                 \<and> rounds_to (sum_list (map (\<lambda>a. distance_m_of B a / 1000)
                                 (week_activities B hist (week_start agg)))) 2
                     (volume_total_distance_km (to_dict agg))
                 \<and> total_duration_hours agg
                   = sum_list (map (\<lambda>a. duration_s_of B a / 3600)
                               (week_activities B hist (week_start agg)))
                 \<and> rounds_to (sum_list (map (\<lambda>a. duration_s_of B a / 3600)
                                 (week_activities B hist (week_start agg)))) 2
                     (volume_total_duration_hours (to_dict agg))
                 \<and> avg_heart_rate agg
                   = mean (filter (\<lambda>h. 0 < h)
                            (map (average_hr_of B) (week_activities B hist (week_start agg))))
                 \<and> rounds_if (mean (filter (\<lambda>h. 0 < h)
                            (map (average_hr_of B) (week_activities B hist (week_start agg))))) 1
                     (intensity_avg_heart_rate (to_dict agg))
                 \<and> (avg_heart_rate agg = None \<longleftrightarrow>
                      (\<forall>a \<in> set (week_activities B hist (week_start agg)).
                          \<not> 0 < average_hr_of B a))
                 \<and> (intensity_avg_heart_rate (to_dict agg) = None \<longleftrightarrow>
                      (\<forall>a \<in> set (week_activities B hist (week_start agg)).
                          \<not> 0 < average_hr_of B a)))"
proof -
  from prepare_agent_context_weeks[OF assms(1)] obtain aggs where
    a: "weekly_aggregates B hist gd tc rc = Inr aggs" and
    t: "weekly_trends ctx = map to_dict aggs" and
    c: "\<forall>agg \<in> set aggs. \<exists>n.
          create_weekly_aggregate B (week_start agg)
            (week_activities B hist (week_start agg)) gd n = Inr agg"
    unfolding hist_def rc_def tc_def by blast
  have "total_distance_km agg
                   = sum_list (map (\<lambda>a. distance_m_of B a / 1000)
                               (week_activities B hist (week_start agg)))
                 \<and> rounds_to (sum_list (map (\<lambda>a. distance_m_of B a / 1000)
                                 (week_activities B hist (week_start agg)))) 2
                     (volume_total_distance_km (to_dict agg))
                 \<and> total_duration_hours agg
                   = sum_list (map (\<lambda>a. duration_s_of B a / 3600)
                               (week_activities B hist (week_start agg)))
                 \<and> rounds_to (sum_list (map (\<lambda>a. duration_s_of B a / 3600)
                                 (week_activities B hist (week_start agg)))) 2
                     (volume_total_duration_hours (to_dict agg))
                 \<and> avg_heart_rate agg
                   = mean (filter (\<lambda>h. 0 < h)
                            (map (average_hr_of B) (week_activities B hist (week_start agg))))
                 \<and> rounds_if (mean (filter (\<lambda>h. 0 < h)
                            (map (average_hr_of B) (week_activities B hist (week_start agg))))) 1
                     (intensity_avg_heart_rate (to_dict agg))
                 \<and> (avg_heart_rate agg = None \<longleftrightarrow>
                      (\<forall>a \<in> set (week_activities B hist (week_start agg)).
                          \<not> 0 < average_hr_of B a))
                 \<and> (intensity_avg_heart_rate (to_dict agg) = None \<longleftrightarrow>
                      (\<forall>a \<in> set (week_activities B hist (week_start agg)).
                          \<not> 0 < average_hr_of B a))"
    if "agg \<in> set aggs" for agg
  proof -
    from c that obtain n where
      "create_weekly_aggregate B (week_start agg)
         (week_activities B hist (week_start agg)) gd n = Inr agg" by blast
    note f = create_weekly_aggregate_fields(1-3)[OF this]
    have n: "avg_heart_rate agg = None \<longleftrightarrow>
               (\<forall>a \<in> set (week_activities B hist (week_start agg)). \<not> 0 < average_hr_of B a)"
      unfolding f(3) by (simp add: mean_None filter_empty_conv)
    have "positive_if_present (avg_heart_rate agg)"
      unfolding f(3) by (rule mean_positive) simp
    from round_if_positive[OF this, of 1] n
    have e: "intensity_avg_heart_rate (to_dict agg) = None \<longleftrightarrow>
               (\<forall>a \<in> set (week_activities B hist (week_start agg)). \<not> 0 < average_hr_of B a)"
      by (simp add: to_dict_volume)
    have d: "rounds_to (total_distance_km agg) 2 (volume_total_distance_km (to_dict agg))"
      "rounds_to (total_duration_hours agg) 2 (volume_total_duration_hours (to_dict agg))"
      "rounds_if (avg_heart_rate agg) 1 (intensity_avg_heart_rate (to_dict agg))"
      by (simp_all add: to_dict_volume rounds_to_py_round rounds_if_round_if)
    from f n e d[unfolded f] show ?thesis by (intro conjI)
  qed
  with a t show ?thesis by blast
qed

theorem weekly_volume_and_heart_rate_witness:
  "\<exists>ctx aggs.
     prepare_agent_context std week_data None 14 28 = Inr ctx
     \<and> weekly_aggregates std (historical_bucket std week_data 739565 739551) week_data
          739551 739565 = Inr aggs
     \<and> weekly_trends ctx = map to_dict aggs
     \<and> map total_distance_km aggs = [0, 30]
     \<and> map total_duration_hours aggs = [0, 5 / 2]
     \<and> map avg_heart_rate aggs = [None, Some 145]
     \<and> map volume_total_distance_km (weekly_trends ctx) = [0, 30]
     \<and> map volume_total_duration_hours (weekly_trends ctx) = [0, 5 / 2]
     \<and> map intensity_avg_heart_rate (weekly_trends ctx) = [None, Some 145]"
proof -
  from week_data_returns obtain ctx where
    c: "prepare_agent_context std week_data None 14 28 = Inr ctx" by blast
  from weekly_volume_and_heart_rate[OF c] obtain aggs where
    a: "weekly_aggregates std (historical_bucket std week_data 739565 739551) week_data
          739551 739565 = Inr aggs" and
    t: "weekly_trends ctx = map to_dict aggs" and
    p: "\<forall>agg \<in> set aggs.
          total_distance_km agg
            = sum_list (map (\<lambda>a. distance_m_of std a / 1000)
                (week_activities std (historical_bucket std week_data 739565 739551)
                   (week_start agg)))
          \<and> total_duration_hours agg
            = sum_list (map (\<lambda>a. duration_s_of std a / 3600)
                (week_activities std (historical_bucket std week_data 739565 739551)
                   (week_start agg)))
          \<and> avg_heart_rate agg
            = mean (filter (\<lambda>h. 0 < h)
                (map (average_hr_of std)
                  (week_activities std (historical_bucket std week_data 739565 739551)
                     (week_start agg))))"
    unfolding std_day by auto
  from std_two_weeks[OF a] obtain x y where
    xy: "aggs = [x, y]" "week_start x = 739551" "week_start y = 739558" by blast
  have d: "sum_list (map (\<lambda>a. distance_m_of std a / 1000) (input_activities week_data)) = 30"
    by code_simp
  have u: "sum_list (map (\<lambda>a. duration_s_of std a / 3600) (input_activities week_data)) = 5 / 2"
    by code_simp
  have h: "mean (filter (\<lambda>h. 0 < h) (map (average_hr_of std) (input_activities week_data)))
             = Some 145"
    by code_simp
  from p xy have v: "map total_distance_km aggs = [0, 30]"
    "map total_duration_hours aggs = [0, 5 / 2]"
    "map avg_heart_rate aggs = [None, Some 145]"
    by (simp_all add: week_data_weeks d u h mean_Nil)
  from v xy(1) have vx: "total_distance_km x = 0" "total_distance_km y = 30"
    "total_duration_hours x = 0" "total_duration_hours y = 5 / 2"
    "avg_heart_rate x = None" "avg_heart_rate y = Some 145"
    by simp_all
  have "map volume_total_distance_km (map to_dict aggs) = [0, 30]"
    "map volume_total_duration_hours (map to_dict aggs) = [0, 5 / 2]"
    "map intensity_avg_heart_rate (map to_dict aggs) = [None, Some 145]"
    unfolding xy(1) by (simp_all add: to_dict_volume vx round_if_def py_round_volume)
  with c a t v show ?thesis by (intro exI[of _ ctx] exI[of _ aggs]) simp
qed

text \<open>
  Claim C5 as stated fails on the emitted week: the distances of the week of 2025-11-03
  in the partition dataset, 7000.5 m and 20000 m, sum to 27.0005 km, and the emitted
  \<open>total_distance_km\<close> is 27.
\<close>

theorem emitted_distance_counterexample:
  "map_sum id (map volume_total_distance_km \<circ> weekly_trends)
     (prepare_agent_context std partition_data None 14 28) = Inr [0, 27]
   \<and> week_activities std (historical_bucket std partition_data 739565 739551) 739558
       = [run ''2025-11-05T07:00:00Z'' (PDict [(''distance'', PStr ''7000.5'')]),
          run ''2025-11-09'' (PDict [(''distance'', PInt 20000)])]
   \<and> sum_list (map (\<lambda>a. distance_m_of std a / 1000)
        (week_activities std (historical_bucket std partition_data 739565 739551) 739558))
       = 54001 / 2000"
  by code_simp


section \<open>Weekly aggregator: the training load\<close>





section \<open>Weekly aggregator: the highest-intensity type\<close>

text \<open>
  Claim C7, as amended. Whenever \<^verbatim>\<open>prepare_agent_context\<close> returns, for every week:
  \<open>highest_intensity_type\<close> is the type tag of the first activity of the week that
  attains the week's highest coerced training load (every earlier activity has a
  strictly lower load, every later one a load not above it), provided that load is
  strictly positive; it is None when the week has no activity or when no activity of the
  week has a strictly positive load.
\<close>

theorem highest_intensity_first_positive:
  assumes "prepare_agent_context B gd ad rw tw = Inr ctx"
  defines "rc \<equiv> analysis_day B ad - rw" and "tc \<equiv> analysis_day B ad - tw"
  defines "hist \<equiv> historical_bucket B gd rc tc"
  shows "\<exists>aggs. weekly_aggregates B hist gd tc rc = Inr aggs
           \<and> weekly_trends ctx = map to_dict aggs
           \<and> (\<forall>agg \<in> set aggs.
                 key_highest_intensity_type (to_dict agg) = highest_intensity_activity agg
                 \<and> (case first_max (training_load_of B)
                           (week_activities B hist (week_start agg)) of
                      None \<Rightarrow> highest_intensity_activity agg = PNone
                    | Some a \<Rightarrow>
                        (\<exists>pre post.
                           week_activities B hist (week_start agg) = pre @ a # post
                           \<and> (\<forall>x \<in> set pre. training_load_of B x < training_load_of B a)
                           \<and> (\<forall>x \<in> set post. training_load_of B x \<le> training_load_of B a))
                        \<and> highest_intensity_activity agg
                            = (if 0 < training_load_of B a then activity_type_of a else PNone)))"
proof -
  from prepare_agent_context_fields[OF assms(1)] obtain aggs where
    a: "weekly_aggregates B hist gd tc rc = Inr aggs" and
    t: "weekly_trends ctx = map to_dict aggs" and
    f: "\<forall>agg \<in> set aggs.
          highest_intensity_activity agg
            = (case first_max (training_load_of B)
                      (week_activities B hist (week_start agg)) of
                 None \<Rightarrow> PNone
               | Some a \<Rightarrow> if 0 < training_load_of B a then activity_type_of a else PNone)"
    unfolding hist_def rc_def tc_def by blast
  have "key_highest_intensity_type (to_dict agg) = highest_intensity_activity agg
                 \<and> (case first_max (training_load_of B)
                           (week_activities B hist (week_start agg)) of
                      None \<Rightarrow> highest_intensity_activity agg = PNone
                    | Some a \<Rightarrow>
                        (\<exists>pre post.
                           week_activities B hist (week_start agg) = pre @ a # post
                           \<and> (\<forall>x \<in> set pre. training_load_of B x < training_load_of B a)
                           \<and> (\<forall>x \<in> set post. training_load_of B x \<le> training_load_of B a))
                        \<and> highest_intensity_activity agg
                            = (if 0 < training_load_of B a then activity_type_of a else PNone))"
    if "agg \<in> set aggs" for agg
  proof (cases "first_max (training_load_of B) (week_activities B hist (week_start agg))")
    case None
    with f that show ?thesis by (simp add: to_dict_load)
  next
    case (Some x)
    from first_max_first[OF Some] f that Some show ?thesis by (simp add: to_dict_load)
  qed
  with a t show ?thesis by blast
qed

theorem highest_intensity_first_positive_witness:
  "\<exists>ctx aggs.
     prepare_agent_context std load_data None 14 35 = Inr ctx
     \<and> weekly_aggregates std (historical_bucket std load_data 739565 739544) load_data
          739544 739565 = Inr aggs
     \<and> weekly_trends ctx = map to_dict aggs
     \<and> map highest_intensity_activity aggs = [PNone, PStr ''running'', PStr ''running'']
     \<and> map key_highest_intensity_type (weekly_trends ctx)
          = [PNone, PStr ''running'', PStr ''running'']"
proof -
  from load_data_returns obtain ctx where
    c: "prepare_agent_context std load_data None 14 35 = Inr ctx" by blast
  have w: "analysis_day std None - 14 = 739565" "analysis_day std None - 35 = 739544"
    by (simp_all add: std_day)
  from highest_intensity_first_positive[OF c, unfolded w] obtain aggs where
    a: "weekly_aggregates std (historical_bucket std load_data 739565 739544) load_data
          739544 739565 = Inr aggs" and
    t: "weekly_trends ctx = map to_dict aggs" and
    p0: "\<forall>agg \<in> set aggs.
                 key_highest_intensity_type (to_dict agg) = highest_intensity_activity agg
                 \<and> (case first_max (training_load_of std)
                           (week_activities std (historical_bucket std load_data 739565 739544)
                              (week_start agg)) of
                      None \<Rightarrow> highest_intensity_activity agg = PNone
                    | Some a \<Rightarrow>
                        (\<exists>pre post.
                           week_activities std (historical_bucket std load_data 739565 739544)
                             (week_start agg) = pre @ a # post
                           \<and> (\<forall>x \<in> set pre. training_load_of std x < training_load_of std a)
                           \<and> (\<forall>x \<in> set post. training_load_of std x \<le> training_load_of std a))
                        \<and> highest_intensity_activity agg
                            = (if 0 < training_load_of std a then activity_type_of a else PNone))"
    by blast
  have p: "key_highest_intensity_type (to_dict agg) = highest_intensity_activity agg
          \<and> (case first_max (training_load_of std)
                   (week_activities std (historical_bucket std load_data 739565 739544)
                      (week_start agg)) of
                None \<Rightarrow> highest_intensity_activity agg = PNone
              | Some a \<Rightarrow>
                  highest_intensity_activity agg
                    = (if 0 < training_load_of std a then activity_type_of a else PNone))"
    if "agg \<in> set aggs" for agg
    using p0 that by (auto split: option.splits)
  from std_three_weeks[OF a] obtain x y z where
    xyz: "aggs = [x, y, z]" "week_start x = 739544" "week_start y = 739551"
      "week_start z = 739558" by blast
  have m: "x \<in> set aggs" "y \<in> set aggs" "z \<in> set aggs" using xyz(1) by simp_all
  note px = p[OF m(1), unfolded xyz(2) load_data_weeks load_data_first_max option.case]
  note py = p[OF m(2), unfolded xyz(3) load_data_weeks load_data_first_max option.case]
  note pz = p[OF m(3), unfolded xyz(4) load_data_weeks load_data_first_max option.case]
  from px py pz xyz(1) have
    "map highest_intensity_activity aggs = [PNone, PStr ''running'', PStr ''running'']"
    "map key_highest_intensity_type (map to_dict aggs)
       = [PNone, PStr ''running'', PStr ''running'']"
    by (simp_all add: load_data_loads)
  with c a t show ?thesis by (intro exI[of _ ctx] exI[of _ aggs]) simp
qed

text \<open>
  Claim C7 as stated fails on a week whose activities all have a load of zero: the
  first of them owns the highest load of the week, and the emitted type is None.
\<close>

theorem highest_intensity_counterexample:
  "map_sum id (map key_highest_intensity_type \<circ> weekly_trends)
     (prepare_agent_context std load_data None 14 35)
     = Inr [PNone, PStr ''running'', PStr ''running'']
   \<and> spec_highest_intensity_type std
        (week_activities std (historical_bucket std load_data 739565 739544) 739544)
     = PStr ''running''"
proof -
  from load_data_returns obtain ctx where
    c: "prepare_agent_context std load_data None 14 35 = Inr ctx" by blast
  from prepare_agent_context_fields[OF c] obtain aggs where
    a: "weekly_aggregates std (historical_bucket std load_data 739565 739544) load_data
          739544 739565 = Inr aggs" and
    t: "weekly_trends ctx = map to_dict aggs" and
    p: "\<forall>agg \<in> set aggs.
          highest_intensity_activity agg
            = (case first_max (training_load_of std)
                      (week_activities std (historical_bucket std load_data 739565 739544)
                         (week_start agg)) of
                 None \<Rightarrow> PNone
               | Some a \<Rightarrow> if 0 < training_load_of std a then activity_type_of a else PNone)"
    unfolding std_day by auto
  from std_three_weeks[OF a] obtain x y z where
    xyz: "aggs = [x, y, z]" "week_start x = 739544" "week_start y = 739551"
      "week_start z = 739558" by blast
  have m: "x \<in> set aggs" "y \<in> set aggs" "z \<in> set aggs" using xyz(1) by simp_all
  note px = p[rule_format, OF m(1), unfolded xyz(2) load_data_weeks load_data_first_max
      option.case]
  note py = p[rule_format, OF m(2), unfolded xyz(3) load_data_weeks load_data_first_max
      option.case]
  note pz = p[rule_format, OF m(3), unfolded xyz(4) load_data_weeks load_data_first_max
      option.case]
  from px py pz xyz(1) have
    "map key_highest_intensity_type (map to_dict aggs)
       = [PNone, PStr ''running'', PStr ''running'']"
    by (simp add: load_data_loads to_dict_load)
  moreover have "spec_highest_intensity_type std
        (week_activities std (historical_bucket std load_data 739565 739544) 739544)
     = PStr ''running''"
    unfolding spec_highest_intensity_type_def load_data_weeks load_data_first_max option.case
    by (simp add: load_data_loads)
  ultimately show ?thesis using c t by simp
qed


section \<open>Weekly aggregator: the recovery averages\<close>

text \<open>
  Claim C8, as amended. Whenever \<^verbatim>\<open>prepare_agent_context\<close> returns, for every week:
  the aggregate holds in \<open>avg_resting_hr\<close> the mean of the resting heart rates of
  exactly the recovery entries whose date \<open>d\<close> has \<open>week_start \<le> d \<le> week_end\<close>,
  both ends included, and in \<open>avg_sleep_hours\<close> the mean of the sleep totals of those
  entries, except the entries whose resting heart rate \<^verbatim>\<open>float\<close> rejects (they are
  skipped as a whole); each is None exactly when no such entry contributes a value. The
  emitted week shows the first rounded to one decimal and the second to two decimals,
  and None for a mean of zero. Where no resting heart rate of the dataset is rejected,
  the sleep average is the mean over all the entries of the range, as the claim has it.
\<close>

theorem weekly_recovery_join:
  assumes "prepare_agent_context B gd ad rw tw = Inr ctx"
  defines "rc \<equiv> analysis_day B ad - rw" and "tc \<equiv> analysis_day B ad - tw"
  defines "hist \<equiv> historical_bucket B gd rc tc"
  shows "\<exists>aggs. weekly_aggregates B hist gd tc rc = Inr aggs
           \<and> weekly_trends ctx = map to_dict aggs
           \<and> (\<forall>agg \<in> set aggs.
                 avg_resting_hr agg
                   = mean (concat (map (\<lambda>e. float_values B (rhr_of e))
                       (filter (\<lambda>e. case entry_date B e of
                                       None \<Rightarrow> False
                                     | Some d \<Rightarrow> week_start agg \<le> d \<and> d \<le> week_end agg)
                          (recovery_entries gd))))
                 \<and> avg_sleep_hours agg
                   = mean (concat (map (\<lambda>e. if rhr_rejected B e then []
                                             else float_values B (total_sleep_of e))
                       (filter (\<lambda>e. case entry_date B e of
                                       None \<Rightarrow> False
                                     | Some d \<Rightarrow> week_start agg \<le> d \<and> d \<le> week_end agg)
                          (recovery_entries gd))))
                 \<and> (avg_resting_hr agg = None \<longleftrightarrow>
                      week_rhrs B (week_start agg) (week_end agg) (recovery_entries gd) = [])
                 \<and> (avg_sleep_hours agg = None \<longleftrightarrow>
                      week_sleeps B (week_start agg) (week_end agg) (recovery_entries gd) = [])
                 \<and> rounds_if (avg_resting_hr agg) 1 (recovery_avg_resting_hr (to_dict agg))
                 \<and> rounds_if (avg_sleep_hours agg) 2 (recovery_avg_sleep_hours (to_dict agg))
                 \<and> ((\<forall>e \<in> set (recovery_entries gd). \<not> rhr_rejected B e) \<longrightarrow>
                      avg_sleep_hours agg
                        = mean (spec_week_sleeps B (week_start agg) (week_end agg)
                                  (recovery_entries gd))))"
proof -
  from prepare_agent_context_fields[OF assms(1)] obtain aggs where
    a: "weekly_aggregates B hist gd tc rc = Inr aggs" and
    t: "weekly_trends ctx = map to_dict aggs" and
    f: "\<forall>agg \<in> set aggs.
          week_end agg = week_start agg + 6
          \<and> avg_resting_hr agg
              = mean (week_rhrs B (week_start agg) (week_start agg + 6) (recovery_entries gd))
          \<and> avg_sleep_hours agg
              = mean (week_sleeps B (week_start agg) (week_start agg + 6) (recovery_entries gd))"
    unfolding hist_def rc_def tc_def by blast
  have "avg_resting_hr agg
                   = mean (concat (map (\<lambda>e. float_values B (rhr_of e))
                       (filter (\<lambda>e. case entry_date B e of
                                       None \<Rightarrow> False
                                     | Some d \<Rightarrow> week_start agg \<le> d \<and> d \<le> week_end agg)
                          (recovery_entries gd))))
                 \<and> avg_sleep_hours agg
                   = mean (concat (map (\<lambda>e. if rhr_rejected B e then []
                                             else float_values B (total_sleep_of e))
                       (filter (\<lambda>e. case entry_date B e of
                                       None \<Rightarrow> False
                                     | Some d \<Rightarrow> week_start agg \<le> d \<and> d \<le> week_end agg)
                          (recovery_entries gd))))
                 \<and> (avg_resting_hr agg = None \<longleftrightarrow>
                      week_rhrs B (week_start agg) (week_end agg) (recovery_entries gd) = [])
                 \<and> (avg_sleep_hours agg = None \<longleftrightarrow>
                      week_sleeps B (week_start agg) (week_end agg) (recovery_entries gd) = [])
                 \<and> rounds_if (avg_resting_hr agg) 1 (recovery_avg_resting_hr (to_dict agg))
                 \<and> rounds_if (avg_sleep_hours agg) 2 (recovery_avg_sleep_hours (to_dict agg))
                 \<and> ((\<forall>e \<in> set (recovery_entries gd). \<not> rhr_rejected B e) \<longrightarrow>
                      avg_sleep_hours agg
                        = mean (spec_week_sleeps B (week_start agg) (week_end agg)
                                  (recovery_entries gd)))"
    if "agg \<in> set aggs" for agg
  proof -
    from f that have
      e: "week_start agg + 6 = week_end agg" and
      r: "avg_resting_hr agg
            = mean (week_rhrs B (week_start agg) (week_start agg + 6) (recovery_entries gd))" and
      s: "avg_sleep_hours agg
            = mean (week_sleeps B (week_start agg) (week_start agg + 6) (recovery_entries gd))"
      by simp_all
    note r' = r[unfolded e] and s' = s[unfolded e]
    have 1: "avg_resting_hr agg
                   = mean (concat (map (\<lambda>e. float_values B (rhr_of e))
                       (filter (\<lambda>e. case entry_date B e of
                                       None \<Rightarrow> False
                                     | Some d \<Rightarrow> week_start agg \<le> d \<and> d \<le> week_end agg)
                          (recovery_entries gd))))"
      using r' by (simp add: week_rhrs_def in_range_eq)
    have 2: "avg_sleep_hours agg
                   = mean (concat (map (\<lambda>e. if rhr_rejected B e then []
                                             else float_values B (total_sleep_of e))
                       (filter (\<lambda>e. case entry_date B e of
                                       None \<Rightarrow> False
                                     | Some d \<Rightarrow> week_start agg \<le> d \<and> d \<le> week_end agg)
                          (recovery_entries gd))))"
      using s' by (simp add: week_sleeps_def in_range_eq)
    have 3: "avg_resting_hr agg = None \<longleftrightarrow>
               week_rhrs B (week_start agg) (week_end agg) (recovery_entries gd) = []"
      "avg_sleep_hours agg = None \<longleftrightarrow>
               week_sleeps B (week_start agg) (week_end agg) (recovery_entries gd) = []"
      unfolding r' s' by (simp_all add: mean_None)
    have 4: "rounds_if (avg_resting_hr agg) 1 (recovery_avg_resting_hr (to_dict agg))"
      "rounds_if (avg_sleep_hours agg) 2 (recovery_avg_sleep_hours (to_dict agg))"
      by (simp_all add: to_dict_load rounds_if_round_if)
    have 5: "(\<forall>e \<in> set (recovery_entries gd). \<not> rhr_rejected B e) \<longrightarrow>
                      avg_sleep_hours agg
                        = mean (spec_week_sleeps B (week_start agg) (week_end agg)
                                  (recovery_entries gd))"
    proof
      assume n: "\<forall>e \<in> set (recovery_entries gd). \<not> rhr_rejected B e"
      have "week_sleeps B ws we (recovery_entries gd)
              = spec_week_sleeps B ws we (recovery_entries gd)" for ws we
        unfolding week_sleeps_def spec_week_sleeps_def
        by (rule arg_cong[of _ _ concat], rule map_cong) (use n in auto)
      with s' show "avg_sleep_hours agg
                        = mean (spec_week_sleeps B (week_start agg) (week_end agg)
                                  (recovery_entries gd))" by simp
    qed
    from 1 2 3 4 5 show ?thesis by (intro conjI)
  qed
  with a t show ?thesis by blast
qed

theorem weekly_recovery_join_witness:
  "\<exists>ctx aggs.
     prepare_agent_context std week_data None 14 28 = Inr ctx
     \<and> weekly_aggregates std (historical_bucket std week_data 739565 739551) week_data
          739551 739565 = Inr aggs
     \<and> weekly_trends ctx = map to_dict aggs
     \<and> map week_start aggs = [739551, 739558]
     \<and> map week_end aggs = [739557, 739564]
     \<and> map avg_resting_hr aggs = [None, Some 55]
     \<and> map avg_sleep_hours aggs = [Some (13 / 2), Some (15 / 2)]
     \<and> map recovery_avg_resting_hr (weekly_trends ctx) = [None, Some 55]
     \<and> map recovery_avg_sleep_hours (weekly_trends ctx) = [Some (13 / 2), Some (15 / 2)]
     \<and> list_all (\<lambda>e. \<not> rhr_rejected std e) (recovery_entries week_data)
     \<and> entry_date std (sleep_entry ''2025-11-03'' (PInt 50) (PInt 7)) = Some 739558
     \<and> entry_date std (sleep_entry ''2025-11-09'' (PInt 60) (PInt 8)) = Some 739564"
proof -
  from week_data_returns obtain ctx where
    c: "prepare_agent_context std week_data None 14 28 = Inr ctx" by blast
  from weekly_recovery_join[OF c] obtain aggs where
    a: "weekly_aggregates std (historical_bucket std week_data 739565 739551) week_data
          739551 739565 = Inr aggs" and
    t: "weekly_trends ctx = map to_dict aggs" and
    p: "\<forall>agg \<in> set aggs.
          avg_resting_hr agg
            = mean (week_rhrs std (week_start agg) (week_end agg) (recovery_entries week_data))
          \<and> avg_sleep_hours agg
            = mean (week_sleeps std (week_start agg) (week_end agg) (recovery_entries week_data))"
    unfolding std_day week_rhrs_def week_sleeps_def in_range_eq by auto
  from std_two_weeks[OF a] obtain x y where
    xy: "aggs = [x, y]" "week_start x = 739551" "week_start y = 739558" by blast
  from prepare_agent_context_fields[OF c] a xy have
    e: "week_end x = 739557" "week_end y = 739564"
    unfolding std_day by auto
  have m: "mean [] = None" "mean [13 / 2] = Some (13 / 2)" "mean [50, 60] = Some 55"
    "mean [7, 8] = Some (15 / 2)"
    by (simp_all add: mean_def)
  have d: "entry_date std (sleep_entry ''2025-11-03'' (PInt 50) (PInt 7)) = Some 739558"
    "entry_date std (sleep_entry ''2025-11-09'' (PInt 60) (PInt 8)) = Some 739564"
    by code_simp+
  have n: "list_all (\<lambda>e. \<not> rhr_rejected std e) (recovery_entries week_data)"
    by code_simp
  from p xy e have v: "map avg_resting_hr aggs = [None, Some 55]"
    "map avg_sleep_hours aggs = [Some (13 / 2), Some (15 / 2)]"
    by (simp_all add: week_data_recovery m)
  from v xy(1) have vx: "avg_resting_hr x = None" "avg_resting_hr y = Some 55"
    "avg_sleep_hours x = Some (13 / 2)" "avg_sleep_hours y = Some (15 / 2)"
    by simp_all
  have "map recovery_avg_resting_hr (map to_dict aggs) = [None, Some 55]"
    "map recovery_avg_sleep_hours (map to_dict aggs) = [Some (13 / 2), Some (15 / 2)]"
    unfolding xy(1) by (simp_all add: to_dict_load vx round_if_def py_round_recovery)
  with c a t xy e d n v show ?thesis by (intro exI[of _ ctx] exI[of _ aggs]) simp
qed

text \<open>
  Claim C8 as stated fails on an entry whose resting heart rate is no number: the entry
  dated 2025-11-04 lies within the week of 2025-11-03 and has a sleep total of 7, the
  mean over the sleep totals of the entries of that week is 7, and the emitted
  \<open>avg_sleep_hours\<close> is None. It fails on the emitted values as well: in the week
  of 2025-10-27 the only resting heart rate is 48.26 and the only sleep total 7.126, and
  the emitted averages are 48.3 and 7.13.
\<close>

theorem rejected_rhr_counterexample:
  "map_sum id (map recovery_avg_sleep_hours \<circ> weekly_trends)
     (prepare_agent_context std rejected_rhr_data None 14 28) = Inr [Some (713 / 100), None]
   \<and> map_sum id (map recovery_avg_resting_hr \<circ> weekly_trends)
     (prepare_agent_context std rejected_rhr_data None 14 28) = Inr [Some (483 / 10), None]
   \<and> entry_date std (sleep_entry ''2025-11-04'' (PStr ''n/a'') (PInt 7)) = Some 739559
   \<and> mean (spec_week_sleeps std 739558 739564 (recovery_entries rejected_rhr_data)) = Some 7
   \<and> mean (spec_week_sleeps std 739551 739557 (recovery_entries rejected_rhr_data))
       = Some (3563 / 500)
   \<and> mean (week_rhrs std 739551 739557 (recovery_entries rejected_rhr_data))
       = Some (2413 / 50)"
  by code_simp


section \<open>Current-state extractor: missing fields\<close>

text \<open>
  Claim C9. Whenever \<^verbatim>\<open>prepare_agent_context\<close> returns, the three input blocks
  (\<^verbatim>\<open>physiological_markers\<close>, \<^verbatim>\<open>training_status\<close> with its
  \<^verbatim>\<open>acute_training_load\<close>, \<^verbatim>\<open>daily_stats\<close>; each an empty dict when its key is
  missing) are dicts, and every field of \<^verbatim>\<open>current_metrics\<close> is the value the block
  holds under the source key, unchanged, or \<open>PNone\<close> (null, not zero) where the block
  has no such key.
\<close>

theorem current_metrics_projection:
  assumes "prepare_agent_context B gd ad rw tw = Inr ctx"
  shows "\<exists>g p t s a.
        gd = PDict g
        \<and> dict_get g ''physiological_markers'' (PDict []) = PDict p
        \<and> dict_get g ''training_status'' (PDict []) = PDict t
        \<and> dict_get g ''daily_stats'' (PDict []) = PDict s
        \<and> dict_get t ''acute_training_load'' (PDict []) = PDict a
        \<and> current_metrics ctx = PDict
            [(''resting_heart_rate'', field_or_null p ''resting_heart_rate''),
             (''vo2_max'', field_or_null p ''vo2_max''),
             (''hrv'', field_or_null p ''hrv''),
             (''training_load'',
                PDict [(''acute'', field_or_null a ''acute_load''),
                       (''chronic'', field_or_null a ''chronic_load''),
                       (''acwr'', field_or_null a ''acwr'')]),
             (''current_stress'', field_or_null s ''average_stress_level''),
             (''current_rhr'', field_or_null s ''resting_heart_rate'')]"
proof -
  from prepare_agent_context_Inr[OF assms]
  have m: "extract_current_metrics gd = Inr (current_metrics ctx)" by blast
  from extract_current_metrics_shape[OF m] obtain g p t s a where sh:
    "gd = PDict g"
    "dict_get g ''physiological_markers'' (PDict []) = PDict p"
    "dict_get g ''training_status'' (PDict []) = PDict t"
    "dict_get g ''daily_stats'' (PDict []) = PDict s"
    "dict_get t ''acute_training_load'' (PDict []) = PDict a"
    by blast
  from extract_current_metrics_value[OF sh] m
  have "current_metrics ctx = PDict
            [(''resting_heart_rate'', field_or_null p ''resting_heart_rate''),
             (''vo2_max'', field_or_null p ''vo2_max''),
             (''hrv'', field_or_null p ''hrv''),
             (''training_load'',
                PDict [(''acute'', field_or_null a ''acute_load''),
                       (''chronic'', field_or_null a ''chronic_load''),
                       (''acwr'', field_or_null a ''acwr'')]),
             (''current_stress'', field_or_null s ''average_stress_level''),
             (''current_rhr'', field_or_null s ''resting_heart_rate'')]"
    by (simp add: field_or_null_def dict_get_def)
  with sh show ?thesis by blast
qed

theorem current_metrics_projection_witness:
  "\<exists>ctx. prepare_agent_context std metrics_data None 14 28 = Inr ctx
     \<and> current_metrics ctx = PDict
            [(''resting_heart_rate'', PInt 52),
             (''vo2_max'', PFloat (117 / 2)),
             (''hrv'', PDict [(''weekly_avg'', PInt 65)]),
             (''training_load'',
                PDict [(''acute'', PInt 0), (''chronic'', PInt 380), (''acwr'', PNone)]),
             (''current_stress'', PNone),
             (''current_rhr'', PNone)]"
proof -
  have "map_sum id preparation_date (prepare_agent_context std metrics_data None 14 28)
          = Inr 739579"
    by code_simp
  then obtain ctx where c: "prepare_agent_context std metrics_data None 14 28 = Inr ctx"
    by (cases "prepare_agent_context std metrics_data None 14 28") auto
  from current_metrics_projection[OF c] obtain g p t s a where sh:
    "metrics_data = PDict g"
    "dict_get g ''physiological_markers'' (PDict []) = PDict p"
    "dict_get g ''training_status'' (PDict []) = PDict t"
    "dict_get g ''daily_stats'' (PDict []) = PDict s"
    "dict_get t ''acute_training_load'' (PDict []) = PDict a"
    and cm: "current_metrics ctx = PDict
            [(''resting_heart_rate'', field_or_null p ''resting_heart_rate''),
             (''vo2_max'', field_or_null p ''vo2_max''),
             (''hrv'', field_or_null p ''hrv''),
             (''training_load'',
                PDict [(''acute'', field_or_null a ''acute_load''),
                       (''chronic'', field_or_null a ''chronic_load''),
                       (''acwr'', field_or_null a ''acwr'')]),
             (''current_stress'', field_or_null s ''average_stress_level''),
             (''current_rhr'', field_or_null s ''resting_heart_rate'')]"
    by blast
  from sh(1) have g: "g = [(''recent_activities'', PList []),
            (''physiological_markers'',
               PDict [(''resting_heart_rate'', PInt 52), (''vo2_max'', PFloat (117 / 2)),
                      (''hrv'', PDict [(''weekly_avg'', PInt 65)])]),
            (''training_status'',
               PDict [(''acute_training_load'',
                         PDict [(''acute_load'', PInt 0), (''chronic_load'', PInt 380)])]),
            (''daily_stats'', PDict [])]"
    by (simp add: metrics_data_def)
  from sh(2) g have p: "p = [(''resting_heart_rate'', PInt 52), (''vo2_max'', PFloat (117 / 2)),
                      (''hrv'', PDict [(''weekly_avg'', PInt 65)])]"
    by (simp add: dict_get_def)
  from sh(3) g have t: "t = [(''acute_training_load'',
                         PDict [(''acute_load'', PInt 0), (''chronic_load'', PInt 380)])]"
    by (simp add: dict_get_def)
  from sh(4) g have s: "s = []" by (simp add: dict_get_def)
  from sh(5) t have a: "a = [(''acute_load'', PInt 0), (''chronic_load'', PInt 380)]"
    by (simp add: dict_get_def)
  from cm show ?thesis unfolding p s a using c by (simp add: field_or_null_def)
qed


section \<open>Recovery join: zero values\<close>

text \<open>
  Claim C10, as amended. In the recovery join a resting heart rate, or a sleep total,
  that is present and equal to 0 is treated exactly as if the sub-field were missing:
  the loop body does the same on the entry and on the entry without the sub-field.
  Whenever \<^verbatim>\<open>prepare_agent_context\<close> returns and every resting heart rate (every
  sleep total) of the recovery entries is absent or a number not below zero, every
  \<open>avg_resting_hr\<close> (\<open>avg_sleep_hours\<close>) of a weekly aggregate that is not None is
  strictly positive, and its emitted, rounded value is not below zero.
\<close>

theorem recovery_zero_is_missing:
  "(is_zero (rhr_of e) \<longrightarrow>
      recovery_step B ws we e acc = recovery_step B ws we (without_rhr e) acc)
   \<and> (is_zero (total_sleep_of e) \<longrightarrow>
      recovery_step B ws we e acc = recovery_step B ws we (without_total_sleep e) acc)
   \<and> (prepare_agent_context B gd ad rw tw = Inr ctx \<longrightarrow>
        (\<exists>aggs.
           weekly_aggregates B
             (historical_bucket B gd (analysis_day B ad - rw) (analysis_day B ad - tw)) gd
             (analysis_day B ad - tw) (analysis_day B ad - rw) = Inr aggs
           \<and> weekly_trends ctx = map to_dict aggs
           \<and> (\<forall>agg \<in> set aggs.
                 ((\<forall>e \<in> set (recovery_entries gd). nonneg_number (rhr_of e)) \<longrightarrow>
                    positive_if_present (avg_resting_hr agg)
                    \<and> nonneg_if_present (recovery_avg_resting_hr (to_dict agg)))
                 \<and> ((\<forall>e \<in> set (recovery_entries gd). nonneg_number (total_sleep_of e)) \<longrightarrow>
                    positive_if_present (avg_sleep_hours agg)
                    \<and> nonneg_if_present (recovery_avg_sleep_hours (to_dict agg))))))"
proof (intro conjI impI)
  assume "is_zero (rhr_of e)"
  then show "recovery_step B ws we e acc = recovery_step B ws we (without_rhr e) acc"
    by (rule recovery_step_without_rhr)
next
  assume "is_zero (total_sleep_of e)"
  then show "recovery_step B ws we e acc = recovery_step B ws we (without_total_sleep e) acc"
    by (rule recovery_step_without_total_sleep)
next
  assume c: "prepare_agent_context B gd ad rw tw = Inr ctx"
  from prepare_agent_context_fields[OF c] obtain aggs where
    a: "weekly_aggregates B
             (historical_bucket B gd (analysis_day B ad - rw) (analysis_day B ad - tw)) gd
             (analysis_day B ad - tw) (analysis_day B ad - rw) = Inr aggs" and
    t: "weekly_trends ctx = map to_dict aggs" and
    f: "\<forall>agg \<in> set aggs.
          avg_resting_hr agg
              = mean (week_rhrs B (week_start agg) (week_start agg + 6) (recovery_entries gd))
          \<and> avg_sleep_hours agg
              = mean (week_sleeps B (week_start agg) (week_start agg + 6) (recovery_entries gd))"
    by blast
  have "((\<forall>e \<in> set (recovery_entries gd). nonneg_number (rhr_of e)) \<longrightarrow>
                    positive_if_present (avg_resting_hr agg)
                    \<and> nonneg_if_present (recovery_avg_resting_hr (to_dict agg)))
                 \<and> ((\<forall>e \<in> set (recovery_entries gd). nonneg_number (total_sleep_of e)) \<longrightarrow>
                    positive_if_present (avg_sleep_hours agg)
                    \<and> nonneg_if_present (recovery_avg_sleep_hours (to_dict agg)))"
    if "agg \<in> set aggs" for agg
  proof (intro conjI impI)
    assume n: "\<forall>e \<in> set (recovery_entries gd). nonneg_number (rhr_of e)"
    from f that mean_positive[OF week_rhrs_positive[OF n]]
    show p: "positive_if_present (avg_resting_hr agg)" by simp
    from round_if_nonneg[OF p]
    show "nonneg_if_present (recovery_avg_resting_hr (to_dict agg))"
      by (simp add: to_dict_load)
  next
    assume n: "\<forall>e \<in> set (recovery_entries gd). nonneg_number (total_sleep_of e)"
    from f that mean_positive[OF week_sleeps_positive[OF n]]
    show p: "positive_if_present (avg_sleep_hours agg)" by simp
    from round_if_nonneg[OF p]
    show "nonneg_if_present (recovery_avg_sleep_hours (to_dict agg))"
      by (simp add: to_dict_load)
  qed
  with a t show "\<exists>aggs.
           weekly_aggregates B
             (historical_bucket B gd (analysis_day B ad - rw) (analysis_day B ad - tw)) gd
             (analysis_day B ad - tw) (analysis_day B ad - rw) = Inr aggs
           \<and> weekly_trends ctx = map to_dict aggs
           \<and> (\<forall>agg \<in> set aggs.
                 ((\<forall>e \<in> set (recovery_entries gd). nonneg_number (rhr_of e)) \<longrightarrow>
                    positive_if_present (avg_resting_hr agg)
                    \<and> nonneg_if_present (recovery_avg_resting_hr (to_dict agg)))
                 \<and> ((\<forall>e \<in> set (recovery_entries gd). nonneg_number (total_sleep_of e)) \<longrightarrow>
                    positive_if_present (avg_sleep_hours agg)
                    \<and> nonneg_if_present (recovery_avg_sleep_hours (to_dict agg))))"
    by blast
qed

theorem recovery_zero_is_missing_witness:
  "is_zero (rhr_of (sleep_entry ''2025-10-28'' (PInt 0) (PFloat (13 / 2))))
   \<and> recovery_step std 739551 739557
        (sleep_entry ''2025-10-28'' (PInt 0) (PFloat (13 / 2))) ([], []) = Inr ([], [13 / 2])
   \<and> is_zero (total_sleep_of (sleep_entry ''2025-10-29'' (PInt 48) (PFloat 0)))
   \<and> recovery_step std 739551 739557
        (sleep_entry ''2025-10-29'' (PInt 48) (PFloat 0)) ([], []) = Inr ([48], [])
   \<and> list_all (nonneg_number \<circ> rhr_of) (recovery_entries week_data)
   \<and> list_all (nonneg_number \<circ> total_sleep_of) (recovery_entries week_data)
   \<and> (\<exists>ctx aggs.
         prepare_agent_context std week_data None 14 28 = Inr ctx
         \<and> weekly_aggregates std (historical_bucket std week_data 739565 739551) week_data
              739551 739565 = Inr aggs
         \<and> weekly_trends ctx = map to_dict aggs
         \<and> list_all (positive_if_present \<circ> avg_resting_hr) aggs
         \<and> list_all (positive_if_present \<circ> avg_sleep_hours) aggs
         \<and> list_all (nonneg_if_present \<circ> recovery_avg_resting_hr) (weekly_trends ctx)
         \<and> list_all (nonneg_if_present \<circ> recovery_avg_sleep_hours) (weekly_trends ctx))"
proof -
  from week_data_returns obtain ctx where
    c: "prepare_agent_context std week_data None 14 28 = Inr ctx" by blast
  have w: "analysis_day std None - 14 = 739565" "analysis_day std None - 28 = 739551"
    by (simp_all add: std_day)
  note th = recovery_zero_is_missing[of _ std _ _ _ week_data None 14 28 ctx, unfolded w]
  from th[of "sleep_entry ''2025-10-28'' (PInt 0) (PFloat (13 / 2))" 739551 739557 "([], [])"]
    zero_entries(1,3)
  have 1: "recovery_step std 739551 739557
        (sleep_entry ''2025-10-28'' (PInt 0) (PFloat (13 / 2))) ([], []) = Inr ([], [13 / 2])"
    by simp
  from th[of "sleep_entry ''2025-10-29'' (PInt 48) (PFloat 0)" 739551 739557 "([], [])"]
    zero_entries(2,4)
  have 2: "recovery_step std 739551 739557
        (sleep_entry ''2025-10-29'' (PInt 48) (PFloat 0)) ([], []) = Inr ([48], [])"
    by simp
  from th[of PNone 0 0 "([], [])"] c obtain aggs where
    a: "weekly_aggregates std (historical_bucket std week_data 739565 739551) week_data
              739551 739565 = Inr aggs" and
    t: "weekly_trends ctx = map to_dict aggs" and
    p: "\<forall>agg \<in> set aggs.
                 ((\<forall>e \<in> set (recovery_entries week_data). nonneg_number (rhr_of e)) \<longrightarrow>
                    positive_if_present (avg_resting_hr agg)
                    \<and> nonneg_if_present (recovery_avg_resting_hr (to_dict agg)))
                 \<and> ((\<forall>e \<in> set (recovery_entries week_data). nonneg_number (total_sleep_of e)) \<longrightarrow>
                    positive_if_present (avg_sleep_hours agg)
                    \<and> nonneg_if_present (recovery_avg_sleep_hours (to_dict agg)))"
    by blast
  from week_data_nonneg have n:
    "\<forall>e \<in> set (recovery_entries week_data). nonneg_number (rhr_of e)"
    "\<forall>e \<in> set (recovery_entries week_data). nonneg_number (total_sleep_of e)"
    by (simp_all add: list_all_iff)
  from p n have
    "list_all (positive_if_present \<circ> avg_resting_hr) aggs"
    "list_all (positive_if_present \<circ> avg_sleep_hours) aggs"
    "list_all (nonneg_if_present \<circ> recovery_avg_resting_hr) (map to_dict aggs)"
    "list_all (nonneg_if_present \<circ> recovery_avg_sleep_hours) (map to_dict aggs)"
    by (simp_all add: list_all_iff)
  with zero_entries(1,2) 1 2 week_data_nonneg c a t show ?thesis
    by (intro conjI exI[of _ ctx] exI[of _ aggs]) simp_all
qed

text \<open>
  Claim C10 as stated fails on negative values, which are truthy: a resting heart rate of
  -5 and a sleep total of -1 are averaged in, and the emitted averages are not None and
  not positive.
\<close>

theorem recovery_positive_counterexample:
  "map_sum id (map recovery_avg_resting_hr \<circ> weekly_trends)
     (prepare_agent_context std negative_data None 14 28) = Inr [None, Some (- 5)]
   \<and> map_sum id (map recovery_avg_sleep_hours \<circ> weekly_trends)
     (prepare_agent_context std negative_data None 14 28) = Inr [None, Some (- 1)]"
proof -
  from negative_data_returns obtain ctx where
    c: "prepare_agent_context std negative_data None 14 28 = Inr ctx" by blast
  have w: "analysis_day std None - 14 = 739565" "analysis_day std None - 28 = 739551"
    by (simp_all add: std_day)
  from prepare_agent_context_fields[OF c, unfolded w] obtain aggs where
    a: "weekly_aggregates std (historical_bucket std negative_data 739565 739551) negative_data
          739551 739565 = Inr aggs" and
    t: "weekly_trends ctx = map to_dict aggs" and
    f: "\<forall>agg \<in> set aggs.
          avg_resting_hr agg
              = mean (week_rhrs std (week_start agg) (week_start agg + 6)
                        (recovery_entries negative_data))
          \<and> avg_sleep_hours agg
              = mean (week_sleeps std (week_start agg) (week_start agg + 6)
                        (recovery_entries negative_data))"
    by blast
  from std_two_weeks[OF a] obtain x y where
    xy: "aggs = [x, y]" "week_start x = 739551" "week_start y = 739558" by blast
  have m: "mean [] = None" "mean [- 5] = Some (- 5)" "mean [- 1] = Some (- 1)"
    by (simp_all add: mean_def)
  from f xy have
    "map recovery_avg_resting_hr (map to_dict aggs) = [None, Some (- 5)]"
    "map recovery_avg_sleep_hours (map to_dict aggs) = [None, Some (- 1)]"
    by (simp_all add: negative_data_recovery m to_dict_load round_if_def py_round_negative)
  with c t show ?thesis by simp
qed

end
